theory Spec2Isabelle
  imports Main "HOL-Library.AList" "HOL-Library.Multiset"
begin

section \<open>The collection store of \<^verbatim>\<open>src/lib/sdk.ts\<close>\<close>

text \<open>
  The class \<^verbatim>\<open>UniversalSDK\<close> keeps every collection as one JSON array in one blob of
  a remote content store. This theory embeds its collection operations (\<^verbatim>\<open>get\<close>,
  \<^verbatim>\<open>save\<close>, \<^verbatim>\<open>insert\<close>, \<^verbatim>\<open>bulkInsert\<close>, \<^verbatim>\<open>update\<close>, \<^verbatim>\<open>delete\<close>),
  its schema validation and its query builder as functions that pass the state of the
  remote store and of the SDK instance explicitly. An exception of the source is the
  \<open>Inl\<close> branch of a sum; every request the SDK sends is appended to a trace.
\<close>

subsection \<open>JavaScript values\<close>

text \<open>
  A record is a JavaScript object: a list of own properties in insertion order. Property
  values are JSON values, or \<^verbatim>\<open>undefined\<close> (which a caller can pass inside a partial).
  A JSON number in stored data is an integer.
\<close>

datatype jsval =
    JUndefined
  | JNull
  | JBool bool
  | JNum int
  | JStr string
  | JArr "jsval list"
  | JObj "(string \<times> jsval) list"

type_synonym jsrecord = "(string \<times> jsval) list"

text \<open>
  A number is \<^verbatim>\<open>NaN\<close>, an infinity, or the decimal \<open>m \<times> 10^e\<close>, kept exactly as
  \<open>Dec m e\<close>. Every number the operations below can meet is such a decimal: the value of a
  numeric literal, a JSON integer, a maximum, a successor. The arithmetic on \<open>Dec\<close> is
  exact, so the embedding agrees with IEEE doubles wherever no rounding occurs, which
  includes every integer of magnitude up to \<open>2^53\<close>; it says nothing about values that a
  double would round. Positive and negative zero are not told apart (none of the
  operations modelled here does).
\<close>

datatype jsnum = NaN | Dec int int | PInf | NInf

definition negate :: "jsnum \<Rightarrow> jsnum" where
  "negate x = (case x of NaN \<Rightarrow> NaN | Dec m e \<Rightarrow> Dec (- m) e | PInf \<Rightarrow> NInf | NInf \<Rightarrow> PInf)"

text \<open>
  The white space \<^verbatim>\<open>StringToNumber\<close> strips, as far as it lies in the 8-bit characters
  of a \<open>string\<close>: tab, line feed, vertical tab, form feed, carriage return, space and the
  no-break space.
\<close>

definition is_ws :: "char \<Rightarrow> bool" where
  "is_ws c =
     (c \<in> set [CHR 0x09, CHR 0x0A, CHR 0x0B, CHR 0x0C, CHR 0x0D, CHR '' '', CHR 0xA0])"

definition trim :: "string \<Rightarrow> string" where
  "trim s = rev (dropWhile is_ws (rev (dropWhile is_ws s)))"

definition is_digit :: "char \<Rightarrow> bool" where
  "is_digit c = (c \<in> set ''0123456789'')"

definition digit_val :: "char \<Rightarrow> nat" where
  "digit_val c = length (takeWhile (\<lambda>d. d \<noteq> c) ''0123456789'')"

definition digits_val :: "string \<Rightarrow> nat" where
  "digits_val ds = foldl (\<lambda>acc c. 10 * acc + digit_val c) 0 ds"

definition all_digits :: "string \<Rightarrow> bool" where
  "all_digits ds = (ds \<noteq> [] \<and> list_all is_digit ds)"

text \<open>
  The digits of a binary, octal or hexadecimal literal: \<open>radix_digit b c\<close> is the value
  of the character \<open>c\<close> as a digit of the base \<open>b\<close>, if it is one.
\<close>

definition radix_digit :: "nat \<Rightarrow> char \<Rightarrow> nat option" where
  "radix_digit b c =
     (let v = (if c \<in> set ''0123456789'' then digit_val c
               else if c \<in> set ''abcdef'' then 10 + length (takeWhile (\<lambda>d. d \<noteq> c) ''abcdef'')
               else if c \<in> set ''ABCDEF'' then 10 + length (takeWhile (\<lambda>d. d \<noteq> c) ''ABCDEF'')
               else b)
      in if v < b then Some v else None)"

definition radix_val :: "nat \<Rightarrow> string \<Rightarrow> nat option" where
  "radix_val b ds =
     (if ds \<noteq> [] \<and> list_all (\<lambda>c. radix_digit b c \<noteq> None) ds
      then Some (foldl (\<lambda>acc c. b * acc + (case radix_digit b c of None \<Rightarrow> 0 | Some v \<Rightarrow> v)) 0 ds)
      else None)"

text \<open>
  The grammar \<^verbatim>\<open>StringNumericLiteral\<close> of the language, production by production.
  \<open>NonDecimalIntegerLiteral\<close>: \<^verbatim>\<open>0x\<close>, \<^verbatim>\<open>0o\<close> or \<^verbatim>\<open>0b\<close> (in either case) and digits of
  that base; it takes no sign.
\<close>

definition NonDecimalIntegerLiteral :: "string \<Rightarrow> nat option" where
  "NonDecimalIntegerLiteral t =
     (case t of
        c0 # c1 # ds \<Rightarrow>
          if c0 \<noteq> CHR ''0'' then None
          else if c1 \<in> set ''xX'' then radix_val 16 ds
          else if c1 \<in> set ''oO'' then radix_val 8 ds
          else if c1 \<in> set ''bB'' then radix_val 2 ds
          else None
      | _ \<Rightarrow> None)"

text \<open>\<open>SignedInteger\<close>: decimal digits with an optional sign.\<close>

definition SignedInteger :: "string \<Rightarrow> int option" where
  "SignedInteger t =
     (case t of
        [] \<Rightarrow> None
      | c # ds \<Rightarrow>
          if c = CHR ''+'' then (if all_digits ds then Some (int (digits_val ds)) else None)
          else if c = CHR ''-'' then (if all_digits ds then Some (- int (digits_val ds)) else None)
          else if all_digits t then Some (int (digits_val t))
          else None)"

text \<open>
  What follows the mantissa: nothing (the exponent is \<open>0\<close>), or \<^verbatim>\<open>e\<close> or \<^verbatim>\<open>E\<close> and a
  signed integer.
\<close>

definition ExponentPart :: "string \<Rightarrow> int option" where
  "ExponentPart t =
     (case t of
        [] \<Rightarrow> Some 0
      | c # r \<Rightarrow> if c \<in> set ''eE'' then SignedInteger r else None)"

text \<open>
  \<open>StrUnsignedDecimalLiteral\<close>: \<^verbatim>\<open>Infinity\<close>, or digits with an optional fraction (one
  of the two runs of digits around the point may be empty, not both) and an optional
  exponent. Its value is the digits read as one integer, scaled by the exponent less the
  length of the fraction.
\<close>

definition StrUnsignedDecimalLiteral :: "string \<Rightarrow> jsnum" where
  "StrUnsignedDecimalLiteral t =
     (if t = ''Infinity'' then PInf
      else
        (let ip = takeWhile is_digit t;
             r = dropWhile is_digit t;
             dot = (r \<noteq> [] \<and> hd r = CHR ''.'');
             fp = (if dot then takeWhile is_digit (tl r) else []);
             r' = (if dot then dropWhile is_digit (tl r) else r)
         in if ip = [] \<and> fp = [] then NaN
            else case ExponentPart r' of
                   None \<Rightarrow> NaN
                 | Some x \<Rightarrow> Dec (int (digits_val (ip @ fp))) (x - int (length fp))))"

text \<open>
  \<^verbatim>\<open>StringToNumber\<close>, the conversion behind unary plus on a string: surrounding white
  space is dropped, the empty string is \<open>0\<close>, a numeric literal is its value, and any
  other text is \<^verbatim>\<open>NaN\<close>.
\<close>

definition StringToNumber :: "string \<Rightarrow> jsnum" where
  "StringToNumber s =
     (let t = trim s in
      if t = [] then Dec 0 0
      else case NonDecimalIntegerLiteral t of
             Some n \<Rightarrow> Dec (int n) 0
           | None \<Rightarrow>
               if hd t = CHR ''+'' then StrUnsignedDecimalLiteral (tl t)
               else if hd t = CHR ''-'' then negate (StrUnsignedDecimalLiteral (tl t))
               else StrUnsignedDecimalLiteral t)"

definition digit_char :: "nat \<Rightarrow> char" where
  "digit_char d = ''0123456789'' ! d"

function digits_of :: "nat \<Rightarrow> string" where
  "digits_of n =
     (if n < 10 then [digit_char n] else digits_of (n div 10) @ [digit_char (n mod 10)])"
  by pat_completeness auto
termination
  by (relation "measure id") auto

declare digits_of.simps [simp del]

text \<open>
  \<^verbatim>\<open>Number.prototype.toString\<close> in base 10, as the language defines it. With \<open>s\<close> the
  significant digits of the magnitude (no trailing zero), \<open>k\<close> their number and \<open>n\<close> the
  position of the decimal point after the first digit of \<open>s\<close>: an integer of at most 21
  digits is printed in full, a number with \<open>0 < n \<le> 21\<close> with the point inside the
  digits, a number with \<open>-6 < n \<le> 0\<close> as \<^verbatim>\<open>0.\<close>, zeros and the digits, and anything else
  in exponent notation. \<open>strip_zeros\<close> moves the trailing zeros of the mantissa into the
  exponent.
\<close>

function strip_zeros :: "nat \<Rightarrow> int \<Rightarrow> nat \<times> int" where
  "strip_zeros m e =
     (if m \<noteq> 0 \<and> m mod 10 = 0 then strip_zeros (m div 10) (e + 1) else (m, e))"
  by pat_completeness auto
termination
  by (relation "measure fst") auto

declare strip_zeros.simps [simp del]

definition magnitude_toString :: "nat \<Rightarrow> int \<Rightarrow> string" where
  "magnitude_toString m e =
     (let (s, e') = strip_zeros m e;
          ds = digits_of s;
          k = int (length ds);
          n = k + e'
      in if k \<le> n \<and> n \<le> 21 then ds @ replicate (nat (n - k)) (CHR ''0'')
         else if 0 < n \<and> n \<le> 21 then take (nat n) ds @ ''.'' @ drop (nat n) ds
         else if - 6 < n \<and> n \<le> 0 then ''0.'' @ replicate (nat (- n)) (CHR ''0'') @ ds
         else (if k = 1 then ds else take 1 ds @ ''.'' @ drop 1 ds) @ ''e'' @
              (if n - 1 < 0 then ''-'' else ''+'') @ digits_of (nat \<bar>n - 1\<bar>))"

definition Number_toString :: "jsnum \<Rightarrow> string" where
  "Number_toString x =
     (case x of
        NaN \<Rightarrow> ''NaN''
      | PInf \<Rightarrow> ''Infinity''
      | NInf \<Rightarrow> ''-Infinity''
      | Dec m e \<Rightarrow>
          if m = 0 then ''0''
          else if m < 0 then CHR ''-'' # magnitude_toString (nat (- m)) e
          else magnitude_toString (nat m) e)"

fun join :: "string \<Rightarrow> string list \<Rightarrow> string" where
  "join sep [] = []"
| "join sep [x] = x"
| "join sep (x # y # ys) = x @ sep @ join sep (y # ys)"

fun toString :: "jsval \<Rightarrow> string" where
  "toString JUndefined = ''undefined''"
| "toString JNull = ''null''"
| "toString (JBool b) = (if b then ''true'' else ''false'')"
| "toString (JNum n) = Number_toString (Dec n 0)"
| "toString (JStr s) = s"
| "toString (JArr xs) =
     join '','' (map (\<lambda>x. if x = JUndefined \<or> x = JNull then [] else toString x) xs)"
| "toString (JObj kvs) = ''[object Object]''"

definition toPrimitive :: "jsval \<Rightarrow> jsval" where
  "toPrimitive v =
     (case v of JArr xs \<Rightarrow> JStr (toString v) | JObj kvs \<Rightarrow> JStr (toString v) | _ \<Rightarrow> v)"

definition toNumber :: "jsval \<Rightarrow> jsnum" where
  "toNumber v =
     (case toPrimitive v of
        JUndefined \<Rightarrow> NaN
      | JNull \<Rightarrow> Dec 0 0
      | JBool b \<Rightarrow> Dec (if b then 1 else 0) 0
      | JNum n \<Rightarrow> Dec n 0
      | JStr s \<Rightarrow> StringToNumber s
      | _ \<Rightarrow> NaN)"

text \<open>
  The order of numbers: two decimals are compared at their smaller exponent, and a
  comparison with \<^verbatim>\<open>NaN\<close> is false.
\<close>

definition dec_lt :: "int \<Rightarrow> int \<Rightarrow> int \<Rightarrow> int \<Rightarrow> bool" where
  "dec_lt m1 e1 m2 e2 =
     (let e = min e1 e2 in m1 * 10 ^ nat (e1 - e) < m2 * 10 ^ nat (e2 - e))"

definition num_lt :: "jsnum \<Rightarrow> jsnum \<Rightarrow> bool" where
  "num_lt a b =
     (case a of
        NaN \<Rightarrow> False
      | PInf \<Rightarrow> False
      | NInf \<Rightarrow> (case b of NaN \<Rightarrow> False | NInf \<Rightarrow> False | _ \<Rightarrow> True)
      | Dec m1 e1 \<Rightarrow>
          (case b of
             NaN \<Rightarrow> False
           | NInf \<Rightarrow> False
           | PInf \<Rightarrow> True
           | Dec m2 e2 \<Rightarrow> dec_lt m1 e1 m2 e2))"

text \<open>
  The relational operators \<^verbatim>\<open><\<close> and \<^verbatim>\<open>>\<close>: two strings compare by code units,
  anything else numerically.
\<close>

fun str_lt :: "string \<Rightarrow> string \<Rightarrow> bool" where
  "str_lt [] [] = False"
| "str_lt [] (d # ds) = True"
| "str_lt (c # cs) [] = False"
| "str_lt (c # cs) (d # ds) =
     (if c = d then str_lt cs ds else (of_char c :: nat) < of_char d)"

definition js_lt :: "jsval \<Rightarrow> jsval \<Rightarrow> bool" where
  "js_lt a b =
     (case (toPrimitive a, toPrimitive b) of
        (JStr s, JStr t) \<Rightarrow> str_lt s t
      | (pa, pb) \<Rightarrow> num_lt (toNumber pa) (toNumber pb))"

definition js_gt :: "jsval \<Rightarrow> jsval \<Rightarrow> bool" where
  "js_gt a b = js_lt b a"

subsection \<open>Objects\<close>

text \<open>
  The own properties of an object: \<open>has_field\<close> tells whether the object has the
  property itself, \<open>get_field\<close> reads it (\<^verbatim>\<open>undefined\<close> when it has none). They are
  \<^verbatim>\<open>item[field]\<close> for every name that \<^verbatim>\<open>Object.prototype\<close> does not define, among
  them \<open>id\<close> and \<open>uid\<close>.
\<close>

definition has_field :: "jsrecord \<Rightarrow> string \<Rightarrow> bool" where
  "has_field r k = (map_of r k \<noteq> None)"

definition get_field :: "jsrecord \<Rightarrow> string \<Rightarrow> jsval" where
  "get_field r k = (case map_of r k of None \<Rightarrow> JUndefined | Some v \<Rightarrow> v)"

text \<open>
  A record is a plain object, so behind its own properties stand the members of
  \<^verbatim>\<open>Object.prototype\<close>. The operator \<^verbatim>\<open>in\<close> and a property read see them: for one of
  these names \<^verbatim>\<open>field in item\<close> is true of every record, and \<^verbatim>\<open>item[field]\<close> is the
  inherited function (for \<^verbatim>\<open>__proto__\<close> the prototype object) unless the record has a
  property of its own under that name. \<open>Member\<close> stands for such an inherited value,
  which is neither \<^verbatim>\<open>undefined\<close> nor \<^verbatim>\<open>null\<close>.
\<close>

definition Object_prototype :: "string list" where
  "Object_prototype =
     [''constructor'', ''__defineGetter__'', ''__defineSetter__'', ''hasOwnProperty'',
      ''__lookupGetter__'', ''__lookupSetter__'', ''isPrototypeOf'', ''propertyIsEnumerable'',
      ''toString'', ''valueOf'', ''__proto__'', ''toLocaleString'']"

datatype property = Value jsval | Member

definition in_object :: "string \<Rightarrow> jsrecord \<Rightarrow> bool" where
  "in_object field item = (has_field item field \<or> field \<in> set Object_prototype)"

definition read_property :: "jsrecord \<Rightarrow> string \<Rightarrow> property" where
  "read_property item field =
     (case map_of item field of
        Some v \<Rightarrow> Value v
      | None \<Rightarrow> if field \<in> set Object_prototype then Member else Value JUndefined)"

text \<open>
  Spreading \<^verbatim>\<open>...src\<close> into an object literal that already holds \<open>target\<close>: each
  property of \<open>src\<close>, in order, overwrites the property of that name in place or is
  appended. So \<^verbatim>\<open>{ ...a, ...b }\<close> is \<open>assign (assign [] a) b\<close>.
\<close>

definition assign :: "jsrecord \<Rightarrow> jsrecord \<Rightarrow> jsrecord" where
  "assign target src = foldl (\<lambda>acc (k, v). AList.update k v acc) target src"

text \<open>
  What \<^verbatim>\<open>JSON.parse(JSON.stringify(v))\<close> gives back: a property whose value is
  \<^verbatim>\<open>undefined\<close> is dropped, an \<^verbatim>\<open>undefined\<close> array element becomes \<^verbatim>\<open>null\<close>.
\<close>

fun jsonify :: "jsval \<Rightarrow> jsval" where
  "jsonify (JArr xs) = JArr (map (\<lambda>x. if x = JUndefined then JNull else jsonify x) xs)"
| "jsonify (JObj kvs) =
     JObj (map (\<lambda>(k, v). (k, jsonify v)) (filter (\<lambda>(k, v). v \<noteq> JUndefined) kvs))"
| "jsonify v = v"

definition jsonify_record :: "jsrecord \<Rightarrow> jsrecord" where
  "jsonify_record r = map (\<lambda>(k, v). (k, jsonify v)) (filter (\<lambda>(k, v). v \<noteq> JUndefined) r)"

subsection \<open>The remote content store and the state of an SDK instance\<close>

text \<open>\<^verbatim>\<open>request\<close> throws \<^verbatim>\<open>new Error(await res.text())\<close>: an error is its message.\<close>

datatype error = Error string

text \<open>
  The content version (\<^verbatim>\<open>sha\<close>) of a blob is a hash of its bytes. It is modelled as
  an ideal, collision-free hash: the content itself under a constructor.
\<close>

datatype sha = Sha "jsrecord list"

definition sha_of :: "jsrecord list \<Rightarrow> sha" where
  "sha_of c = Sha c"

text \<open>
  What the environment does at one request: it serves it, it answers with a failure
  (\<open>Fault\<close>, with the response text), or another client's write lands on a path just
  before the request is served (\<open>Interfere\<close>).
\<close>

datatype event = Serve | Fault string | Interfere string "jsrecord list"

datatype req = GET string | PUT string "jsrecord list" "sha option"

record AuditLogEntry =
  action :: string
  data :: jsrecord
  timestamp :: nat

text \<open>
  The state every operation passes on: \<open>blobs\<close> is the remote store (one branch, a
  path to the array stored there), \<open>script\<close> the events the environment has in store
  for the coming requests (none left: every request is served), \<open>requests\<close> the trace
  of the requests sent so far, \<open>rng\<close> the state of the token generator, \<open>clock\<close>
  what \<^verbatim>\<open>Date.now()\<close> returns, and \<open>auditLog\<close> the in-memory log of the instance.
\<close>

record world =
  blobs :: "string \<rightharpoonup> jsrecord list"
  script :: "event list"
  requests :: "req list"
  rng :: nat
  clock :: nat
  auditLog :: "string \<rightharpoonup> AuditLogEntry list"

text \<open>
  Modelled from the spec: the texts of the BlobStore's \<open>NotFound\<close> and \<open>Conflict\<close>
  responses (section 6 of the specification), which \<^verbatim>\<open>request\<close> turns into the message
  of the error it throws. The service is not part of this repository; the not-found
  text carries the status \<open>404\<close>, which is what \<^verbatim>\<open>get\<close> looks for.
\<close>

definition not_found_msg :: string where
  "not_found_msg = ''404 Not Found''"

definition conflict_msg :: string where
  "conflict_msg = ''409 Conflict''"

definition next_event :: "world \<Rightarrow> event \<times> world" where
  "next_event w = (case script w of [] \<Rightarrow> (Serve, w) | e # es \<Rightarrow> (e, w\<lparr>script := es\<rparr>))"

definition interfere :: "event \<Rightarrow> world \<Rightarrow> world" where
  "interfere e w =
     (case e of Interfere p c \<Rightarrow> w\<lparr>blobs := (blobs w)(p \<mapsto> c)\<rparr> | _ \<Rightarrow> w)"

text \<open>
  Modelled from the spec: the BlobStore collaborator (section 6 of the specification),
  a remote service whose code is not part of this repository. \<open>request_GET\<close> is
  \<^verbatim>\<open>request(path)\<close>: it returns the content and its version and fails with the store's
  not-found response when the path does not exist. \<open>request_PUT\<close> is
  \<^verbatim>\<open>request(path, "PUT", body)\<close>: it fails with the store's conflict response when an
  expected version is supplied and is not the path's current version, and writes
  otherwise. A blob holds the decoded array; the base64 and JSON text around it are not
  modelled.
\<close>

definition request_GET :: "string \<Rightarrow> world \<Rightarrow> (error + jsrecord list \<times> sha) \<times> world" where
  "request_GET path w =
     (let (e, w1) = next_event w;
          w2 = w1\<lparr>requests := requests w1 @ [GET path]\<rparr>
      in case e of
           Fault msg \<Rightarrow> (Inl (Error msg), w2)
         | _ \<Rightarrow>
            (let w3 = interfere e w2
             in case blobs w3 path of
                  None \<Rightarrow> (Inl (Error not_found_msg), w3)
                | Some c \<Rightarrow> (Inr (c, sha_of c), w3)))"

text \<open>
  Modelled from the spec: the BlobStore's \<open>write\<close> (section 6 of the specification), as
  described above \<open>request_GET\<close>. A write with no expected version is unconditional.
\<close>

definition request_PUT ::
  "string \<Rightarrow> jsrecord list \<Rightarrow> sha option \<Rightarrow> world \<Rightarrow> (error + unit) \<times> world" where
  "request_PUT path content expected w =
     (let (e, w1) = next_event w;
          w2 = w1\<lparr>requests := requests w1 @ [PUT path content expected]\<rparr>
      in case e of
           Fault msg \<Rightarrow> (Inl (Error msg), w2)
         | _ \<Rightarrow>
            (let w3 = interfere e w2
             in case expected of
                  None \<Rightarrow> (Inr (), w3\<lparr>blobs := (blobs w3)(path \<mapsto> content)\<rparr>)
                | Some s \<Rightarrow>
                    if map_option sha_of (blobs w3 path) = Some s
                    then (Inr (), w3\<lparr>blobs := (blobs w3)(path \<mapsto> content)\<rparr>)
                    else (Inl (Error conflict_msg), w3)))"

subsection \<open>Configuration\<close>

record SchemaDefinition =
  required :: "string list option"
  types :: "(string \<times> string) list option"
  defaults :: "jsrecord option"

record config =
  basePath :: string
  schemas :: "string \<rightharpoonup> SchemaDefinition"

definition path_of :: "config \<Rightarrow> string \<Rightarrow> string" where
  "path_of cfg collection = basePath cfg @ ''/'' @ collection @ ''.json''"

subsection \<open>\<^verbatim>\<open>save\<close>, \<^verbatim>\<open>initializeCollection\<close>, \<^verbatim>\<open>get\<close>\<close>

text \<open>\<^verbatim>\<open>String.prototype.includes\<close>.\<close>

fun starts_with :: "string \<Rightarrow> string \<Rightarrow> bool" where
  "starts_with s [] = True"
| "starts_with [] (c # cs) = False"
| "starts_with (d # ds) (c # cs) = (d = c \<and> starts_with ds cs)"

fun str_includes :: "string \<Rightarrow> string \<Rightarrow> bool" where
  "str_includes [] t = (t = [])"
| "str_includes (c # cs) t = (starts_with (c # cs) t \<or> str_includes cs t)"

text \<open>
  \<^verbatim>\<open>save\<close> reads the head of the blob for its \<^verbatim>\<open>sha\<close> (any failure of that read is
  caught and leaves \<^verbatim>\<open>sha\<close> undefined), then writes, passing the \<^verbatim>\<open>sha\<close> if it has
  one.
\<close>

definition save :: "config \<Rightarrow> string \<Rightarrow> jsrecord list \<Rightarrow> world \<Rightarrow> (error + unit) \<times> world" where
  "save cfg collection dat w =
     (let (head, w1) = request_GET (path_of cfg collection) w;
          sha = (case head of Inl e \<Rightarrow> None | Inr (c, s) \<Rightarrow> Some s)
      in request_PUT (path_of cfg collection) (map jsonify_record dat) sha w1)"

text \<open>\<^verbatim>\<open>initializeCollection\<close> catches whatever \<^verbatim>\<open>save\<close> throws.\<close>

definition initializeCollection :: "config \<Rightarrow> string \<Rightarrow> world \<Rightarrow> world" where
  "initializeCollection cfg collection w = snd (save cfg collection [] w)"

definition get :: "config \<Rightarrow> string \<Rightarrow> world \<Rightarrow> (error + jsrecord list) \<times> world" where
  "get cfg collection w =
     (case request_GET (path_of cfg collection) w of
        (Inr (c, s), w1) \<Rightarrow> (Inr c, w1)
      | (Inl (Error msg), w1) \<Rightarrow>
          if str_includes msg ''404'' \<or> str_includes msg ''empty''
          then (Inr [], initializeCollection cfg collection w1)
          else (Inl (Error msg), w1))"

subsection \<open>\<^verbatim>\<open>validateSchema\<close>\<close>

definition validation_msg :: "string \<Rightarrow> string \<Rightarrow> string" where
  "validation_msg field collection =
     ''Required field '' @ [CHR 0x27] @ field @ [CHR 0x27] @ '' is missing in '' @ collection"

text \<open>
  The test of one required field:
  \<^verbatim>\<open>!(field in item) || item[field] === undefined || item[field] === null\<close>.
\<close>

definition missing :: "jsrecord \<Rightarrow> string \<Rightarrow> bool" where
  "missing item field =
     (\<not> in_object field item \<or> read_property item field = Value JUndefined \<or>
      read_property item field = Value JNull)"

fun check_required :: "string \<Rightarrow> string list \<Rightarrow> jsrecord \<Rightarrow> error + unit" where
  "check_required collection [] item = Inr ()"
| "check_required collection (field # rest) item =
     (if missing item field then Inl (Error (validation_msg field collection))
      else check_required collection rest item)"

definition validateSchema :: "config \<Rightarrow> string \<Rightarrow> jsrecord \<Rightarrow> error + unit" where
  "validateSchema cfg collection item =
     (case schemas cfg collection of
        None \<Rightarrow> Inr ()
      | Some schema \<Rightarrow>
          (case required schema of
             None \<Rightarrow> Inr ()
           | Some fs \<Rightarrow> check_required collection fs item))"

text \<open>\<^verbatim>\<open>if (schema?.defaults) item = { ...schema.defaults, ...item }\<close>.\<close>

definition apply_defaults :: "config \<Rightarrow> string \<Rightarrow> jsrecord \<Rightarrow> jsrecord" where
  "apply_defaults cfg collection item =
     (case schemas cfg collection of
        None \<Rightarrow> item
      | Some schema \<Rightarrow>
          (case defaults schema of
             None \<Rightarrow> item
           | Some d \<Rightarrow> assign (assign [] d) item))"

subsection \<open>Identifiers and the audit log\<close>

text \<open>\<^verbatim>\<open>+x.id || 0\<close>: \<^verbatim>\<open>NaN\<close> and zero are falsy.\<close>

definition or0 :: "jsnum \<Rightarrow> jsnum" where
  "or0 x =
     (case x of
        NaN \<Rightarrow> Dec 0 0
      | Dec m e \<Rightarrow> if m = 0 then Dec 0 0 else Dec m e
      | PInf \<Rightarrow> PInf
      | NInf \<Rightarrow> NInf)"

definition id_number :: "jsrecord \<Rightarrow> jsnum" where
  "id_number x = or0 (toNumber (get_field x ''id''))"

text \<open>
  \<^verbatim>\<open>Math.max\<close> of two numbers, and \<^verbatim>\<open>Math.max(0, ...arr.map(x => +x.id || 0))\<close>.
\<close>

definition Math_max :: "jsnum \<Rightarrow> jsnum \<Rightarrow> jsnum" where
  "Math_max a b = (if a = NaN \<or> b = NaN then NaN else if num_lt a b then b else a)"

definition max_id :: "jsrecord list \<Rightarrow> jsnum" where
  "max_id arr = foldl Math_max (Dec 0 0) (map id_number arr)"

text \<open>\<^verbatim>\<open>x + 1\<close> on a number (also the new value of \<^verbatim>\<open>nextId++\<close>).\<close>

definition plus1 :: "jsnum \<Rightarrow> jsnum" where
  "plus1 x =
     (case x of
        NaN \<Rightarrow> NaN
      | PInf \<Rightarrow> PInf
      | NInf \<Rightarrow> NInf
      | Dec m e \<Rightarrow>
          if 0 \<le> e then Dec (m * 10 ^ nat e + 1) 0 else Dec (m + 10 ^ nat (- e)) e)"

text \<open>
  \<^verbatim>\<open>crypto.randomUUID()\<close> is modelled as an ideal generator that never repeats: the
  \<open>n\<close>-th call of an instance returns the \<open>n\<close>-th token.
\<close>

definition uuid_of :: "nat \<Rightarrow> string" where
  "uuid_of n = ''uuid-'' @ digits_of n"

definition randomUUID :: "world \<Rightarrow> string \<times> world" where
  "randomUUID w = (uuid_of (rng w), w\<lparr>rng := rng w + 1\<rparr>)"

definition audit :: "string \<Rightarrow> jsrecord \<Rightarrow> string \<Rightarrow> world \<Rightarrow> world" where
  "audit collection dat act w =
     w\<lparr>auditLog := (auditLog w)(collection \<mapsto>
         (case auditLog w collection of None \<Rightarrow> [] | Some es \<Rightarrow> es)
           @ [\<lparr>action = act, data = dat, timestamp = clock w\<rparr>])\<rparr>"

subsection \<open>\<^verbatim>\<open>insert\<close>, \<^verbatim>\<open>bulkInsert\<close>, \<^verbatim>\<open>update\<close>, \<^verbatim>\<open>delete\<close>\<close>

text \<open>\<^verbatim>\<open>{ uid, id: n.toString(), ...item }\<close>.\<close>

definition new_item :: "string \<Rightarrow> jsnum \<Rightarrow> jsrecord \<Rightarrow> jsrecord" where
  "new_item uid n item =
     assign [(''uid'', JStr uid), (''id'', JStr (Number_toString n))] item"


text \<open>
  The loop of \<^verbatim>\<open>bulkInsert\<close> over the items, with the local array, the results and
  \<^verbatim>\<open>nextId\<close> as accumulators. A validation error leaves the loop at once.
\<close>

fun bulkInsert_loop ::
  "config \<Rightarrow> string \<Rightarrow> jsrecord list \<Rightarrow> jsrecord list \<Rightarrow> jsrecord list \<Rightarrow> jsnum \<Rightarrow> world
     \<Rightarrow> (error + jsrecord list \<times> jsrecord list) \<times> world" where
  "bulkInsert_loop cfg collection [] arr results nextId w = (Inr (arr, results), w)"
| "bulkInsert_loop cfg collection (item # items) arr results nextId w =
     (let processedItem = apply_defaults cfg collection item
      in case validateSchema cfg collection processedItem of
           Inl e \<Rightarrow> (Inl e, w)
         | Inr u \<Rightarrow>
             (let (uid, w1) = randomUUID w;
                  newItem = new_item uid nextId processedItem
              in bulkInsert_loop cfg collection items
                   (arr @ [newItem]) (results @ [newItem]) (plus1 nextId) w1))"

definition bulkInsert ::
  "config \<Rightarrow> string \<Rightarrow> jsrecord list \<Rightarrow> world \<Rightarrow> (error + jsrecord list) \<times> world" where
  "bulkInsert cfg collection items w =
     (case get cfg collection w of
        (Inl e, w1) \<Rightarrow> (Inl e, w1)
      | (Inr arr, w1) \<Rightarrow>
          (case bulkInsert_loop cfg collection items arr [] (plus1 (max_id arr)) w1 of
             (Inl e, w2) \<Rightarrow> (Inl e, w2)
           | (Inr (arr', results), w2) \<Rightarrow>
               (case save cfg collection arr' w2 of
                  (Inl e, w3) \<Rightarrow> (Inl e, w3)
                | (Inr u, w3) \<Rightarrow> (Inr results, w3))))"

text \<open>\<^verbatim>\<open>x.id === key || x.uid === key\<close>, with \<open>key\<close> a string.\<close>

definition matches_key :: "string \<Rightarrow> jsrecord \<Rightarrow> bool" where
  "matches_key key x = (get_field x ''id'' = JStr key \<or> get_field x ''uid'' = JStr key)"

fun findIndex :: "('a \<Rightarrow> bool) \<Rightarrow> 'a list \<Rightarrow> nat option" where
  "findIndex P [] = None"
| "findIndex P (x # xs) = (if P x then Some 0 else map_option Suc (findIndex P xs))"

text \<open>\<^verbatim>\<open>update\<close> returns \<^verbatim>\<open>null\<close> (here \<open>None\<close>) when no record matches.\<close>

definition update ::
  "config \<Rightarrow> string \<Rightarrow> string \<Rightarrow> jsrecord \<Rightarrow> world \<Rightarrow> (error + jsrecord option) \<times> world" where
  "update cfg collection key updates w =
     (case get cfg collection w of
        (Inl e, w1) \<Rightarrow> (Inl e, w1)
      | (Inr arr, w1) \<Rightarrow>
          (case findIndex (matches_key key) arr of
             None \<Rightarrow> (Inr None, w1)
           | Some index \<Rightarrow>
               (let merged = assign (assign [] (arr ! index)) updates;
                    arr' = arr[index := merged]
                in case save cfg collection arr' w1 of
                     (Inl e, w2) \<Rightarrow> (Inl e, w2)
                   | (Inr u, w2) \<Rightarrow>
                       (Inr (Some merged), audit collection merged ''update'' w2))))"


subsection \<open>\<^verbatim>\<open>queryBuilder\<close>\<close>

text \<open>
  A builder is the closure \<^verbatim>\<open>queryBuilder\<close> returns: the promise \<^verbatim>\<open>query\<close> of the
  \<^verbatim>\<open>get\<close> it starts when it is created (here already settled: an error or the fetched
  array), and the variables \<^verbatim>\<open>filters\<close>, \<^verbatim>\<open>sortField\<close>, \<^verbatim>\<open>sortDir\<close> and
  \<^verbatim>\<open>projectionFields\<close> its methods assign. A filter is a total predicate on records.

  The model runs the \<^verbatim>\<open>get\<close> of a builder to its end when the builder is created:
  all its requests, those of a lazy initialisation included, are in the trace before the
  next call starts. In the source the \<^verbatim>\<open>get\<close>s that the calls of one chain start run
  interleaved, each sending its first request at once. Where the blob of the collection
  exists a \<^verbatim>\<open>get\<close> is that one request, and the trace and the results are the same.
\<close>

datatype sort_dir = Asc | Desc

record QueryBuilder =
  qb_collection :: string
  query :: "error + jsrecord list"
  filters :: "(jsrecord \<Rightarrow> bool) list"
  sortField :: "string option"
  sortDir :: sort_dir
  projectionFields :: "string list option"

definition queryBuilder :: "config \<Rightarrow> string \<Rightarrow> world \<Rightarrow> QueryBuilder \<times> world" where
  "queryBuilder cfg collection w =
     (let (q, w1) = get cfg collection w
      in (\<lparr>qb_collection = collection, query = q, filters = [], sortField = None,
           sortDir = Asc, projectionFields = None\<rparr>, w1))"

text \<open>
  Each of \<^verbatim>\<open>where\<close>, \<^verbatim>\<open>sort\<close> and \<^verbatim>\<open>project\<close> assigns a variable of the builder it
  is called on and returns \<^verbatim>\<open>this.queryBuilder(collection)\<close>. The model returns both:
  the receiver after the assignment, and the builder the call returns.
\<close>

definition where_qb ::
  "config \<Rightarrow> QueryBuilder \<Rightarrow> (jsrecord \<Rightarrow> bool) \<Rightarrow> world
     \<Rightarrow> (QueryBuilder \<times> QueryBuilder) \<times> world" where
  "where_qb cfg b fn w =
     (let (returned, w1) = queryBuilder cfg (qb_collection b) w
      in ((b\<lparr>filters := filters b @ [fn]\<rparr>, returned), w1))"

definition sort_qb ::
  "config \<Rightarrow> QueryBuilder \<Rightarrow> string \<Rightarrow> sort_dir \<Rightarrow> world
     \<Rightarrow> (QueryBuilder \<times> QueryBuilder) \<times> world" where
  "sort_qb cfg b field dir w =
     (let (returned, w1) = queryBuilder cfg (qb_collection b) w
      in ((b\<lparr>sortField := Some field, sortDir := dir\<rparr>, returned), w1))"

definition project ::
  "config \<Rightarrow> QueryBuilder \<Rightarrow> string list \<Rightarrow> world
     \<Rightarrow> (QueryBuilder \<times> QueryBuilder) \<times> world" where
  "project cfg b fs w =
     (let (returned, w1) = queryBuilder cfg (qb_collection b) w
      in ((b\<lparr>projectionFields := Some fs\<rparr>, returned), w1))"

text \<open>
  The comparator \<^verbatim>\<open>exec\<close> passes to \<^verbatim>\<open>Array.prototype.sort\<close>. The sort field,
  like the fields of a projection, is read as a property of the record itself: the
  members inherited from \<^verbatim>\<open>Object.prototype\<close> are left out here, so the field names
  are taken not to be among them.
\<close>

definition compare_by :: "sort_dir \<Rightarrow> string \<Rightarrow> jsrecord \<Rightarrow> jsrecord \<Rightarrow> int" where
  "compare_by dir field a b =
     (let aVal = get_field a field; bVal = get_field b field
      in case dir of
           Asc \<Rightarrow> (if js_gt aVal bVal then 1 else if js_lt aVal bVal then - 1 else 0)
         | Desc \<Rightarrow> (if js_lt aVal bVal then 1 else if js_gt aVal bVal then - 1 else 0))"

text \<open>
  \<^verbatim>\<open>Array.prototype.sort\<close> with a comparator is a stable sort; it is modelled by
  insertion sort, which gives the order the language prescribes whenever the comparator
  is a consistent ordering of the elements. Where it is not (records that lack the sort
  field compare as equal to every record), the language leaves the order to the engine,
  and the order computed here need not be the engine's. The general properties below use
  of the sort only that it permutes the records; the examples sort numbers that are
  pairwise different.
\<close>

fun insort_cmp :: "('a \<Rightarrow> 'a \<Rightarrow> int) \<Rightarrow> 'a \<Rightarrow> 'a list \<Rightarrow> 'a list" where
  "insort_cmp cmp x [] = [x]"
| "insort_cmp cmp x (y # ys) =
     (if cmp x y > 0 then y # insort_cmp cmp x ys else x # y # ys)"

definition array_sort :: "('a \<Rightarrow> 'a \<Rightarrow> int) \<Rightarrow> 'a list \<Rightarrow> 'a list" where
  "array_sort cmp xs = foldr (insort_cmp cmp) xs []"

definition project_record :: "string list \<Rightarrow> jsrecord \<Rightarrow> jsrecord" where
  "project_record fs item = foldl (\<lambda>projected f. AList.update f (get_field item f) projected) [] fs"

text \<open>
  \<^verbatim>\<open>exec\<close> awaits \<^verbatim>\<open>query\<close> and sends no request of its own. The sort is in place:
  when no filter has copied the array, it reorders the array the promise holds, which
  the next \<^verbatim>\<open>exec\<close> of this builder sees. An empty \<^verbatim>\<open>sortField\<close> is falsy.
\<close>

definition exec ::
  "QueryBuilder \<Rightarrow> world \<Rightarrow> ((error + jsrecord list) \<times> QueryBuilder) \<times> world" where
  "exec b w =
     (case query b of
        Inl e \<Rightarrow> ((Inl e, b), w)
      | Inr arr \<Rightarrow>
          (let filtered = foldl (\<lambda>results f. filter f results) arr (filters b);
               sorted =
                 (case sortField b of
                    None \<Rightarrow> filtered
                  | Some field \<Rightarrow>
                      if field = [] then filtered
                      else array_sort (compare_by (sortDir b) field) filtered);
               held = (if filters b = [] then sorted else arr);
               results =
                 (case projectionFields b of
                    None \<Rightarrow> sorted
                  | Some fs \<Rightarrow> map (project_record fs) sorted)
           in ((Inr results, b\<lparr>query := Inr held\<rparr>), w)))"

subsection \<open>Notions the properties are stated with\<close>

text \<open>The next \<open>n\<close> requests are each served: no fault, no other client's write.\<close>

definition quiet :: "nat \<Rightarrow> world \<Rightarrow> bool" where
  "quiet n w = list_all (\<lambda>e. e = Serve) (take n (script w))"

text \<open>The state after the environment has consumed one event for the request \<open>r\<close>.\<close>

definition sent :: "req \<Rightarrow> world \<Rightarrow> world" where
  "sent r w = w\<lparr>script := tl (script w), requests := requests w @ [r]\<rparr>"

text \<open>
  The event the environment holds for the \<open>n\<close>-th of the coming requests (none left:
  the request is served).
\<close>

definition event_at :: "nat \<Rightarrow> world \<Rightarrow> event" where
  "event_at n w = (if n < length (script w) then script w ! n else Serve)"

text \<open>
  A \<^verbatim>\<open>save\<close> that starts in the state \<open>w\<close> sends two requests: the read of the head,
  then the write. \<open>read_version\<close> is the version that read returns: none when the read
  fails (the environment answers with a failure, or no blob is at the path), else the
  version of the blob as the read finds it. \<open>blob_at_write\<close> is the blob at the path
  when the write is served. \<open>write_refusal\<close> is the error the write fails with, if it
  fails: the failure the environment answers with, or the store's conflict when the read
  returned a version and the blob at the write has another.
\<close>

definition read_version :: "string \<Rightarrow> world \<Rightarrow> sha option" where
  "read_version p w =
     (case event_at 0 w of
        Fault msg \<Rightarrow> None
      | _ \<Rightarrow> map_option sha_of (blobs (interfere (event_at 0 w) w) p))"

definition blob_at_write :: "string \<Rightarrow> world \<Rightarrow> jsrecord list option" where
  "blob_at_write p w = blobs (interfere (event_at 1 w) (interfere (event_at 0 w) w)) p"

definition write_refusal :: "string \<Rightarrow> world \<Rightarrow> error option" where
  "write_refusal p w =
     (case event_at 1 w of
        Fault msg \<Rightarrow> Some (Error msg)
      | _ \<Rightarrow>
          (case read_version p w of
             None \<Rightarrow> None
           | Some v \<Rightarrow>
               if map_option sha_of (blob_at_write p w) = Some v then None
               else Some (Error conflict_msg)))"

text \<open>
  \<open>guarded_write p w res\<close>: the operation with the outcome \<open>res\<close> has, from the state
  \<open>w\<close> on, sent exactly a read of \<open>p\<close> and a write to \<open>p\<close>; the write presented
  \<open>read_version p w\<close>; if the write was not refused the operation succeeded and the blob
  is what it wrote; if it was refused the operation failed with that error and the blob
  is as the write found it.
\<close>

definition guarded_write :: "string \<Rightarrow> world \<Rightarrow> (error + 'a) \<times> world \<Rightarrow> bool" where
  "guarded_write p w res =
     (case last (requests (snd res)) of
        GET q \<Rightarrow> False
      | PUT q content v \<Rightarrow>
          requests (snd res) = requests w @ [GET p, PUT p content (read_version p w)] \<and>
          (case write_refusal p w of
             None \<Rightarrow> \<not> isl (fst res) \<and> blobs (snd res) p = Some content
           | Some err \<Rightarrow> fst res = Inl err \<and> blobs (snd res) p = blob_at_write p w))"


subsection \<open>Client programs and example states\<close>

text \<open>
  \<^verbatim>\<open>sdk.queryBuilder(c).sort(field, dir).exec()\<close> and
  \<^verbatim>\<open>sdk.queryBuilder(c).where(fn).project(fs).exec()\<close>: each call is made on the builder
  the previous call returned.
\<close>

definition chain_sort_exec ::
  "config \<Rightarrow> string \<Rightarrow> string \<Rightarrow> sort_dir \<Rightarrow> world \<Rightarrow> error + jsrecord list" where
  "chain_sort_exec cfg c field dir w =
     (let (b0, w1) = queryBuilder cfg c w;
          ((r0, b1), w2) = sort_qb cfg b0 field dir w1;
          ((res, r1), w3) = exec b1 w2
      in res)"

definition chain_where_project_exec ::
  "config \<Rightarrow> string \<Rightarrow> (jsrecord \<Rightarrow> bool) \<Rightarrow> string list \<Rightarrow> world \<Rightarrow> error + jsrecord list" where
  "chain_where_project_exec cfg c fn fs w =
     (let (b0, w1) = queryBuilder cfg c w;
          ((r0, b1), w2) = where_qb cfg b0 fn w1;
          ((r1, b2), w3) = project cfg b1 fs w2;
          ((res, r2), w4) = exec b2 w3
      in res)"

text \<open>
  The same two queries with every call made on the one builder \<^verbatim>\<open>queryBuilder\<close>
  returned: \<^verbatim>\<open>b.sort(field, dir); b.exec()\<close> and
  \<^verbatim>\<open>b.where(fn); b.project(fs); b.exec()\<close>.
\<close>

definition same_sort_exec ::
  "config \<Rightarrow> string \<Rightarrow> string \<Rightarrow> sort_dir \<Rightarrow> world \<Rightarrow> error + jsrecord list" where
  "same_sort_exec cfg c field dir w =
     (let (b0, w1) = queryBuilder cfg c w;
          ((r0, b1), w2) = sort_qb cfg b0 field dir w1;
          ((res, r1), w3) = exec r0 w2
      in res)"

definition same_where_project_exec ::
  "config \<Rightarrow> string \<Rightarrow> (jsrecord \<Rightarrow> bool) \<Rightarrow> string list \<Rightarrow> world \<Rightarrow> error + jsrecord list" where
  "same_where_project_exec cfg c fn fs w =
     (let (b0, w1) = queryBuilder cfg c w;
          ((r0, b1), w2) = where_qb cfg b0 fn w1;
          ((r1, b2), w3) = project cfg r0 fs w2;
          ((res, r2), w4) = exec r1 w3
      in res)"

definition example_cfg :: config where
  "example_cfg = \<lparr>basePath = ''db'', schemas = Map.empty\<rparr>"

definition empty_world :: world where
  "empty_world =
     \<lparr>blobs = Map.empty, script = [], requests = [], rng = 0, clock = 0,
      auditLog = Map.empty\<rparr>"

definition abc_records :: "jsrecord list" where
  "abc_records = [[(''a'', JNum 3)], [(''a'', JNum 1)], [(''a'', JNum 2)]]"

definition abc_world :: world where
  "abc_world = empty_world\<lparr>blobs := [''db/items.json'' \<mapsto> abc_records]\<rparr>"

definition a_gt_1 :: "jsrecord \<Rightarrow> bool" where
  "a_gt_1 r = js_gt (get_field r ''a'') (JNum 1)"


definition user1 :: jsrecord where
  "user1 = [(''uid'', JStr ''uid-ada''), (''id'', JStr ''1''), (''name'', JStr ''Ada'')]"

definition users_world :: world where
  "users_world = empty_world\<lparr>blobs := [''db/users.json'' \<mapsto> [user1]]\<rparr>"





definition user2 :: jsrecord where
  "user2 = [(''uid'', JStr ''uid-eve''), (''id'', JStr ''2''), (''name'', JStr ''Eve'')]"




text \<open>
  A JSON value: what \<^verbatim>\<open>JSON.parse\<close> can return, so no \<^verbatim>\<open>undefined\<close> at any depth. A
  fetched array holds JSON records.
\<close>

fun is_json :: "jsval \<Rightarrow> bool" where
  "is_json JUndefined = False"
| "is_json (JArr xs) = list_all is_json xs"
| "is_json (JObj kvs) = list_all is_json (map snd kvs)"
| "is_json v = True"

definition json_record :: "jsrecord \<Rightarrow> bool" where
  "json_record r = list_all is_json (map snd r)"

text \<open>A JavaScript object has each property name once.\<close>

definition is_object :: "jsrecord \<Rightarrow> bool" where
  "is_object r = distinct (map fst r)"

text \<open>
  The records a run of the \<^verbatim>\<open>bulkInsert\<close> loop appends, in closed form: the \<open>j\<close>-th item
  gets the \<open>j\<close>-th token after \<open>r0\<close> and the \<open>j\<close>-th successor of the number \<open>n\<close>.
\<close>

fun allocated :: "config \<Rightarrow> string \<Rightarrow> jsrecord list \<Rightarrow> jsnum \<Rightarrow> nat \<Rightarrow> jsrecord list" where
  "allocated cfg c [] n r0 = []"
| "allocated cfg c (item # items) n r0 =
     new_item (uuid_of r0) n (apply_defaults cfg c item) #
       allocated cfg c items (plus1 n) (r0 + 1)"

text \<open>The fetched array holds JSON objects.\<close>

definition json_array :: "jsrecord list \<Rightarrow> bool" where
  "json_array arr = list_all (\<lambda>x. is_object x \<and> json_record x) arr"

definition ada_profile :: jsrecord where
  "ada_profile =
     [(''uid'', JStr ''uid-ada''), (''id'', JStr ''1''), (''name'', JStr ''Ada''),
      (''address'', JObj [(''city'', JStr ''Paris''), (''zip'', JStr ''75001'')])]"

definition profiles_world :: world where
  "profiles_world = empty_world\<lparr>blobs := [''db/users.json'' \<mapsto> [ada_profile, user2]]\<rparr>"

definition address_patch :: jsrecord where
  "address_patch = [(''address'', JObj [(''city'', JStr ''Rome'')])]"

definition ada_moved :: jsrecord where
  "ada_moved =
     [(''uid'', JStr ''uid-ada''), (''id'', JStr ''1''), (''name'', JStr ''Ada''),
      (''address'', JObj [(''city'', JStr ''Rome'')])]"


definition infinity_world :: world where
  "infinity_world =
     empty_world\<lparr>blobs := [''db/users.json'' \<mapsto>
       [[(''uid'', JStr ''uid-inf''), (''id'', JStr ''Infinity'')]]]\<rparr>"



definition mixed_ids :: "jsrecord list" where
  "mixed_ids =
     [[(''uid'', JStr ''uid-a''), (''id'', JNum 7)],
      [(''uid'', JStr ''uid-b''), (''id'', JStr ''user-7'')],
      [(''uid'', JStr ''uid-c''), (''id'', JNull)],
      [(''uid'', JStr ''uid-d''), (''id'', JStr '' 12 '')]]"

definition mixed_ids_world :: world where
  "mixed_ids_world = empty_world\<lparr>blobs := [''db/users.json'' \<mapsto> mixed_ids]\<rparr>"


subsection \<open>The identifier rule in the words of the specification\<close>

text \<open>
  The specification's \<^verbatim>\<open>nextId\<close>: parse each existing record's \<open>id\<close> as an integer,
  with a non-numeric or absent \<open>id\<close> treated as \<open>0\<close>; take the maximum of these and
  \<open>0\<close>; add \<open>1\<close>; render in base 10. A JSON number is the integer it is; a string is
  parsed as decimal digits with an optional sign, white space around them ignored.
\<close>

definition id_as_integer :: "jsval \<Rightarrow> int" where
  "id_as_integer v =
     (case v of
        JNum n \<Rightarrow> n
      | JStr s \<Rightarrow> (case SignedInteger (trim s) of None \<Rightarrow> 0 | Some n \<Rightarrow> n)
      | _ \<Rightarrow> 0)"

definition spec_first_id :: "jsrecord list \<Rightarrow> nat" where
  "spec_first_id arr =
     nat (Max (set (0 # map (\<lambda>x. id_as_integer (get_field x ''id'')) arr))) + 1"


text \<open>
  The identifiers the theorems about \<^verbatim>\<open>nextId\<close> range over: an absent or \<^verbatim>\<open>null\<close>
  \<open>id\<close>, a JSON integer, and a string that is an integer numeral (decimal digits with an
  optional sign, white space around them), blank, or no numeric literal at all, so that
  unary plus reads it as \<^verbatim>\<open>NaN\<close>. Integers are of magnitude below \<open>2^53\<close>
  (\<open>9007199254740992\<close>), the range in which the arithmetic of doubles is exact. Left out
  are booleans, arrays and objects as \<open>id\<close>, and the strings that are numeric literals
  of another form: with a fraction or an exponent, with a radix prefix, or \<^verbatim>\<open>Infinity\<close>.
\<close>

definition plain_id :: "jsval \<Rightarrow> bool" where
  "plain_id v =
     (case v of
        JUndefined \<Rightarrow> True
      | JNull \<Rightarrow> True
      | JNum n \<Rightarrow> \<bar>n\<bar> < 9007199254740992
      | JStr s \<Rightarrow>
          (case SignedInteger (trim s) of
             Some n \<Rightarrow> \<bar>n\<bar> < 9007199254740992
           | None \<Rightarrow> trim s = [] \<or> StringToNumber s = NaN)
      | _ \<Rightarrow> False)"

definition plain_ids :: "jsrecord list \<Rightarrow> bool" where
  "plain_ids arr = list_all (\<lambda>x. plain_id (get_field x ''id'')) arr"


text \<open>The number of writes in a trace.\<close>

definition writes :: "req list \<Rightarrow> nat" where
  "writes rs = length (filter (\<lambda>r. case r of PUT p c e \<Rightarrow> True | GET p \<Rightarrow> False) rs)"

section \<open>Properties\<close>

subsection \<open>The request trace\<close>

lemma request_GET_extends:
  "requests (snd (request_GET p w)) = requests w @ [GET p]"
  by (auto simp: request_GET_def next_event_def interfere_def Let_def
           split: list.splits event.splits option.splits)

lemma request_PUT_extends:
  "requests (snd (request_PUT p c s w)) = requests w @ [PUT p c s]"
  by (auto simp: request_PUT_def next_event_def interfere_def Let_def
           split: list.splits event.splits option.splits)

lemma save_extends:
  "requests (snd (save cfg c d w)) =
     requests w @
       [GET (path_of cfg c),
        PUT (path_of cfg c) (map jsonify_record d)
          (case fst (request_GET (path_of cfg c) w) of Inl e \<Rightarrow> None | Inr (c, s) \<Rightarrow> Some s)]"
  by (simp add: save_def Let_def split_beta request_PUT_extends request_GET_extends)


subsection \<open>The query builder\<close>

text \<open>
  Whatever the arguments, a chained call runs \<^verbatim>\<open>exec\<close> on a builder that has no filter,
  no sort and no projection: the chain returns the array of the last builder's own fetch.
\<close>

lemma chain_sort_exec_is_plain_get:
  "chain_sort_exec cfg c field dir w = fst (get cfg c (snd (get cfg c w)))"
  by (simp add: chain_sort_exec_def sort_qb_def queryBuilder_def exec_def Let_def
           split: prod.splits sum.splits)

lemma chain_where_project_exec_is_plain_get:
  "chain_where_project_exec cfg c fn fs w =
     fst (get cfg c (snd (get cfg c (snd (get cfg c w)))))"
  by (simp add: chain_where_project_exec_def where_qb_def project_def queryBuilder_def
                exec_def Let_def
           split: prod.splits sum.splits)

text \<open>
  On one builder, \<^verbatim>\<open>exec\<close> does filter, sort and project, in this order: the two
  queries of the specification give the expected results when every call is made on the
  builder \<^verbatim>\<open>queryBuilder\<close> returned.
\<close>

lemma same_builder_queries:
  "same_sort_exec example_cfg ''items'' ''a'' Asc abc_world =
     Inr [[(''a'', JNum 1)], [(''a'', JNum 2)], [(''a'', JNum 3)]] \<and>
   same_where_project_exec example_cfg ''items'' a_gt_1 [''a''] abc_world =
     Inr [[(''a'', JNum 3)], [(''a'', JNum 2)]]"
  by code_simp

text \<open>
  Claim C2 (the code departs from it). The claim: every call of a chain returns a builder
  that carries the accumulated filters, sort and projection, so that on the records
  \<open>[{a:3},{a:1},{a:2}]\<close> the chain \<^verbatim>\<open>sort("a","asc").exec()\<close> yields \<open>[{a:1},{a:2},{a:3}]\<close>
  and \<^verbatim>\<open>where(r=>r.a>1).project(["a"]).exec()\<close> yields the projected records with
  \<open>a > 1\<close>. In the source each call returns \<^verbatim>\<open>this.queryBuilder(collection)\<close>, a new
  builder with empty state: both chains return the three records as stored, unsorted,
  unfiltered and unprojected.
\<close>

theorem chained_query_loses_state:
  "chain_sort_exec example_cfg ''items'' ''a'' Asc abc_world =
     Inr [[(''a'', JNum 3)], [(''a'', JNum 1)], [(''a'', JNum 2)]] \<and>
   chain_where_project_exec example_cfg ''items'' a_gt_1 [''a''] abc_world =
     Inr [[(''a'', JNum 3)], [(''a'', JNum 1)], [(''a'', JNum 2)]]"
  by code_simp













subsection \<open>Requests that are served\<close>

lemma next_event_quiet:
  "quiet (Suc n) w \<Longrightarrow> next_event w = (Serve, w\<lparr>script := tl (script w)\<rparr>)"
  by (cases "script w") (auto simp: quiet_def next_event_def)

lemma quiet_sent: "quiet (Suc n) w \<Longrightarrow> quiet n (sent r w)"
  by (cases "script w") (auto simp: quiet_def sent_def)

lemma blobs_sent [simp]: "blobs (sent r w) = blobs w"
  by (simp add: sent_def)

lemma requests_sent [simp]: "requests (sent r w) = requests w @ [r]"
  by (simp add: sent_def)

lemma request_GET_quiet:
  "quiet (Suc n) w \<Longrightarrow>
   request_GET p w =
     ((case blobs w p of None \<Rightarrow> Inl (Error not_found_msg) | Some c \<Rightarrow> Inr (c, sha_of c)),
      sent (GET p) w)"
  by (simp add: request_GET_def next_event_quiet interfere_def sent_def split: option.splits)

lemma request_PUT_quiet:
  "quiet (Suc n) w \<Longrightarrow>
   request_PUT p c e w =
     (if e = None \<or> e = map_option sha_of (blobs w p)
      then (Inr (), (sent (PUT p c e) w)\<lparr>blobs := (blobs w)(p \<mapsto> c)\<rparr>)
      else (Inl (Error conflict_msg), sent (PUT p c e) w))"
  by (cases e; cases "blobs w p")
     (auto simp add: request_PUT_def next_event_quiet interfere_def sent_def Let_def)

lemma not_found_404: "str_includes not_found_msg ''404''"
  by code_simp

subsection \<open>\<^verbatim>\<open>get\<close>\<close>

lemma get_existing_quiet:
  assumes "blobs w (path_of cfg c) = Some content" and "quiet 1 w"
  shows "get cfg c w = (Inr content, sent (GET (path_of cfg c)) w)"
proof -
  have q: "quiet (Suc 0) w" using assms(2) by simp
  show ?thesis using assms(1) by (simp add: get_def request_GET_quiet[OF q])
qed

lemma get_absent_quiet:
  assumes "blobs w (path_of cfg c) = None" and "quiet 3 w"
  shows "get cfg c w =
      (Inr [], (sent (PUT (path_of cfg c) [] None)
                   (sent (GET (path_of cfg c)) (sent (GET (path_of cfg c)) w)))
                 \<lparr>blobs := (blobs w)(path_of cfg c \<mapsto> [])\<rparr>)"
proof -
  let ?p = "path_of cfg c"
  have q3: "quiet (Suc 2) w"
    using assms(2) by (simp add: numeral_3_eq_3 numeral_2_eq_2)
  have q2: "quiet (Suc 1) (sent (GET ?p) w)"
    using quiet_sent[OF q3] by (simp add: numeral_2_eq_2)
  have q1: "quiet (Suc 0) (sent (GET ?p) (sent (GET ?p) w))"
    using quiet_sent[OF q2] by simp
  show ?thesis
    using assms(1)
    by (simp add: get_def request_GET_quiet[OF q3] not_found_404 initializeCollection_def
                  save_def request_GET_quiet[OF q2] request_PUT_quiet[OF q1])
qed

lemma get_store_effect:
  "(quiet 1 w \<and> blobs w (path_of cfg c) \<noteq> None \<longrightarrow>
      blobs (snd (get cfg c w)) = blobs w \<and>
      requests (snd (get cfg c w)) = requests w @ [GET (path_of cfg c)]) \<and>
   (quiet 3 w \<and> blobs w (path_of cfg c) = None \<longrightarrow>
      blobs (snd (get cfg c w)) = (blobs w)(path_of cfg c \<mapsto> []) \<and>
      requests (snd (get cfg c w)) =
        requests w @ [GET (path_of cfg c), GET (path_of cfg c), PUT (path_of cfg c) [] None])"
  by (auto simp: get_existing_quiet get_absent_quiet)







subsection \<open>Validation\<close>










subsection \<open>Keys that match no record\<close>








subsection \<open>The version a write presents\<close>

lemma blobs_audit [simp]: "blobs (audit c d a w) = blobs w"
  by (simp add: audit_def)

lemma requests_audit [simp]: "requests (audit c d a w) = requests w"
  by (simp add: audit_def)

lemma bulkInsert_loop_valid:
  "list_all (\<lambda>it. validateSchema cfg c (apply_defaults cfg c it) = Inr ()) items \<Longrightarrow>
   \<exists>arr' res' w'. bulkInsert_loop cfg c items arr res n w = (Inr (arr', res'), w') \<and>
      script w' = script w \<and> blobs w' = blobs w \<and> requests w' = requests w"
proof (induction items arbitrary: arr res n w)
  case Nil
  then show ?case by simp
next
  case (Cons a items)
  from Cons.prems have v: "validateSchema cfg c (apply_defaults cfg c a) = Inr ()"
    and vs: "list_all (\<lambda>it. validateSchema cfg c (apply_defaults cfg c it) = Inr ()) items"
    by simp_all
  from Cons.IH[OF vs, of "arr @ [new_item (uuid_of (rng w)) n (apply_defaults cfg c a)]"
                        "res @ [new_item (uuid_of (rng w)) n (apply_defaults cfg c a)]"
                        "plus1 n" "w\<lparr>rng := rng w + 1\<rparr>"]
  show ?case
    by (simp add: v randomUUID_def Let_def)
qed


text \<open>
  What \<^verbatim>\<open>save\<close> does, in whatever state it starts: its two requests, the version the
  write presents, and the outcome.
\<close>

lemma save_requests:
  "requests (snd (save cfg c dat w)) =
     requests w @
       [GET (path_of cfg c),
        PUT (path_of cfg c) (map jsonify_record dat) (read_version (path_of cfg c) w)]"
proof -
  have "(case fst (request_GET (path_of cfg c) w) of Inl e \<Rightarrow> None | Inr (c, s) \<Rightarrow> Some s) =
          read_version (path_of cfg c) w"
    by (cases "script w")
       (auto simp: request_GET_def next_event_def interfere_def event_at_def read_version_def
                   Let_def
             split: event.splits option.splits)
  then show ?thesis
    by (simp add: save_extends)
qed

lemma save_result:
  "fst (save cfg c dat w) =
     (case write_refusal (path_of cfg c) w of None \<Rightarrow> Inr () | Some e \<Rightarrow> Inl e) \<and>
   blobs (snd (save cfg c dat w)) (path_of cfg c) =
     (case write_refusal (path_of cfg c) w of
        None \<Rightarrow> Some (map jsonify_record dat)
      | Some e \<Rightarrow> blob_at_write (path_of cfg c) w)"
proof (cases "script w")
  case Nil
  then show ?thesis
    by (auto simp: save_def request_GET_def request_PUT_def next_event_def interfere_def
                   event_at_def read_version_def blob_at_write_def write_refusal_def
                   Let_def
             split: option.splits)
next
  case (Cons e1 rest)
  note c1 = Cons
  show ?thesis
  proof (cases rest)
    case Nil
    then show ?thesis
      using c1
      by (cases e1)
         (auto simp: save_def request_GET_def request_PUT_def next_event_def interfere_def
                     event_at_def read_version_def blob_at_write_def write_refusal_def
                     Let_def
               split: option.splits)
  next
    case (Cons e2 rest')
    then show ?thesis
      using c1
      by (cases e1; cases e2)
         (auto simp: save_def request_GET_def request_PUT_def next_event_def interfere_def
                     event_at_def read_version_def blob_at_write_def write_refusal_def
                     Let_def
               split: option.splits)
  qed
qed

text \<open>
  The three notions depend on the events in store and on the blobs only, so the token
  generator may have moved between the fetch and the \<^verbatim>\<open>save\<close>.
\<close>

lemma same_store:
  assumes "script w' = script w" and "blobs w' = blobs w"
  shows "read_version p w' = read_version p w"
    and "blob_at_write p w' = blob_at_write p w"
    and "write_refusal p w' = write_refusal p w"
proof -
  have i: "\<And>e. blobs (interfere e w') = blobs (interfere e w)"
    by (simp add: interfere_def assms(2) split: event.splits)
  have j: "\<And>e e'. blobs (interfere e (interfere e' w')) = blobs (interfere e (interfere e' w))"
    by (simp add: interfere_def assms(2) split: event.splits)
  have e: "\<And>n. event_at n w' = event_at n w"
    by (simp add: event_at_def assms(1))
  show r: "read_version p w' = read_version p w"
    by (simp add: read_version_def e i split: event.splits)
  show b: "blob_at_write p w' = blob_at_write p w"
    by (simp add: blob_at_write_def e j)
  show "write_refusal p w' = write_refusal p w"
    by (simp add: write_refusal_def e r b split: event.splits option.splits)
qed

lemma save_guarded:
  assumes "script ws = script w1" and "blobs ws = blobs w1" and "requests ws = requests w1"
      and "save cfg c dat ws = (sr, w3)"
      and "res = (case sr of Inl e \<Rightarrow> Inl e | Inr u \<Rightarrow> Inr x)"
      and "blobs w' = blobs w3" and "requests w' = requests w3"
  shows "guarded_write (path_of cfg c) w1 (res, w')"
proof -
  let ?p = "path_of cfg c"
  have q: "requests w' =
      requests w1 @ [GET ?p, PUT ?p (map jsonify_record dat) (read_version ?p w1)]"
    using save_requests[of cfg c dat ws] assms(3,4,7)
    by (simp add: same_store(1)[OF assms(1,2)])
  have f: "sr = (case write_refusal ?p w1 of None \<Rightarrow> Inr () | Some e \<Rightarrow> Inl e)"
    and b: "blobs w3 ?p =
      (case write_refusal ?p w1 of
         None \<Rightarrow> Some (map jsonify_record dat)
       | Some e \<Rightarrow> blob_at_write ?p w1)"
    using save_result[of cfg c dat ws] assms(4)
    by (simp_all add: same_store(2,3)[OF assms(1,2)] split: option.splits)
  show ?thesis
    by (cases "write_refusal ?p w1") (simp_all add: guarded_write_def q f b assms(5,6))
qed


lemma bulkInsert_guarded:
  assumes "get cfg c w = (Inr arr, w1)"
      and "list_all (\<lambda>it. validateSchema cfg c (apply_defaults cfg c it) = Inr ()) items"
  shows "guarded_write (path_of cfg c) w1 (bulkInsert cfg c items w)"
proof -
  obtain arr' res' w2 where
    l: "bulkInsert_loop cfg c items arr [] (plus1 (max_id arr)) w1 = (Inr (arr', res'), w2)"
    and f: "script w2 = script w1" "blobs w2 = blobs w1" "requests w2 = requests w1"
    using bulkInsert_loop_valid[OF assms(2), of arr "[]" "plus1 (max_id arr)" w1] by blast
  obtain sr w3 where s: "save cfg c arr' w2 = (sr, w3)"
    by (cases "save cfg c arr' w2")
  have i: "bulkInsert cfg c items w = (case sr of Inl e \<Rightarrow> Inl e | Inr u \<Rightarrow> Inr res', w3)"
    by (simp add: bulkInsert_def assms(1) l s split: sum.splits)
  show ?thesis
    unfolding i
    by (rule save_guarded[where ws = w2 and sr = sr and ?w3.0 = w3 and dat = arr'])
       (simp_all add: s f)
qed







subsection \<open>Objects and JSON\<close>

lemma map_of_assign: "map_of (assign t s) = map_of t ++ map_of (rev s)"
  unfolding assign_def
proof (induction s arbitrary: t)
  case Nil
  then show ?case by simp
next
  case (Cons a s)
  obtain k v where a: "a = (k, v)" by (cases a)
  have "(map_of t)(k \<mapsto> v) ++ map_of (rev s) = map_of t ++ (map_of [(k, v)] ++ map_of (rev s))"
    by (auto simp: map_add_def fun_eq_iff split: option.splits)
  then show ?case
    by (simp add: a Cons.IH update_conv' del: fun_upd_apply)
qed

lemma map_of_rev_distinct: "distinct (map fst s) \<Longrightarrow> map_of (rev s) = map_of s"
proof (induction s)
  case Nil
  then show ?case by simp
next
  case (Cons a s)
  obtain k v where a: "a = (k, v)" by (cases a)
  from Cons.prems have k: "k \<notin> fst ` set s" and d: "distinct (map fst s)"
    by (simp_all add: a)
  have n: "map_of s k = None" using k by (simp add: map_of_eq_None_iff)
  show ?case
    using Cons.IH[OF d] n by (auto simp: a map_add_def fun_eq_iff split: option.splits)
qed

lemma get_field_assign:
  "is_object s \<Longrightarrow>
   get_field (assign t s) k = (if has_field s k then get_field s k else get_field t k)"
  by (auto simp add: get_field_def has_field_def map_of_assign map_of_rev_distinct is_object_def
                map_add_def split: option.splits)

lemma dom_map_of_rev: "map_of (rev s) k = None \<longleftrightarrow> map_of s k = None"
  by (simp add: map_of_eq_None_iff)

lemma has_field_assign:
  "has_field (assign t s) k = (has_field s k \<or> has_field t k)"
proof (cases "map_of s k = None")
  case True
  then have "map_of (rev s) k = None" by (simp add: dom_map_of_rev)
  then show ?thesis
    using True by (simp add: has_field_def map_of_assign map_add_def)
next
  case False
  then have "map_of (rev s) k \<noteq> None" by (simp add: dom_map_of_rev)
  then show ?thesis
    using False by (auto simp add: has_field_def map_of_assign map_add_def)
qed

lemma jsonify_json: "is_json v \<Longrightarrow> jsonify v = v"
proof (induction v rule: jsonify.induct)
  case (1 xs)
  have u: "JUndefined \<notin> set xs"
    using 1(2) by (auto simp: list_all_iff)
  show ?case
    using 1 u by (auto simp: list_all_iff intro!: map_idI)
next
  case (2 kvs)
  have f: "filter (\<lambda>(k, v). v \<noteq> JUndefined) kvs = kvs"
    using 2(2) by (auto simp: list_all_iff filter_id_conv)
  show ?case
    using 2 by (auto simp: f list_all_iff intro!: map_idI)
qed simp_all

lemma is_object_assign: "is_object t \<Longrightarrow> is_object (assign t s)"
  unfolding assign_def is_object_def
proof (induction s arbitrary: t)
  case Nil
  then show ?case by simp
next
  case (Cons a s)
  obtain k v where a: "a = (k, v)" by (cases a)
  have "distinct (map fst (AList.update k v t))"
    using Cons.prems by (simp add: distinct_update)
  from Cons.IH[OF this] show ?case
    by (simp add: a)
qed

lemma jsonify_record_json: "json_record r \<Longrightarrow> jsonify_record r = r"
proof -
  assume j: "json_record r"
  have f: "filter (\<lambda>(k, v). v \<noteq> JUndefined) r = r"
    using j by (auto simp: json_record_def list_all_iff filter_id_conv)
  show ?thesis
    using j by (auto simp: jsonify_record_def f json_record_def list_all_iff jsonify_json
                     intro!: map_idI)
qed


subsection \<open>\<^verbatim>\<open>update\<close> on a record that exists\<close>

lemma save_ok_stores:
  "save cfg c dat w = (Inr u, w') \<Longrightarrow>
   blobs w' (path_of cfg c) = Some (map jsonify_record dat)"
  by (auto simp: save_def request_PUT_def Let_def
           split: prod.splits event.splits option.splits if_splits)

lemma findIndex_Some_props:
  "findIndex P xs = Some i \<Longrightarrow> i < length xs \<and> P (xs ! i) \<and> (\<forall>j<i. \<not> P (xs ! j))"
proof (induction xs arbitrary: i)
  case Nil
  then show ?case by simp
next
  case (Cons x xs)
  show ?case
  proof (cases "P x")
    case True
    with Cons.prems show ?thesis by simp
  next
    case False
    with Cons.prems obtain i' where i': "findIndex P xs = Some i'" "i = Suc i'"
      by auto
    from Cons.IH[OF i'(1)] False i'(2) show ?thesis
      by (auto simp: nth_Cons split: nat.splits)
  qed
qed

lemma has_field_Nil [simp]: "has_field [] k = False"
  by (simp add: has_field_def)

lemma assign_Nil_object: "is_object x \<Longrightarrow> get_field (assign [] x) k = get_field x k"
  by (simp add: get_field_def map_of_assign map_of_rev_distinct is_object_def)

lemma update_found:
  assumes "update cfg c key updates w = (Inr (Some r), w')"
      and "fst (get cfg c w) = Inr arr"
  shows "\<exists>i. findIndex (matches_key key) arr = Some i \<and>
             r = assign (assign [] (arr ! i)) updates \<and>
             blobs w' (path_of cfg c) = Some (map jsonify_record (arr[i := r]))"
proof -
  obtain w1 where g: "get cfg c w = (Inr arr, w1)"
    using assms(2) by (cases "get cfg c w") auto
  from assms(1) obtain i where i: "findIndex (matches_key key) arr = Some i"
    by (cases "findIndex (matches_key key) arr") (auto simp: update_def g)
  let ?m = "assign (assign [] (arr ! i)) updates"
  obtain res w2 where s: "save cfg c (arr[i := ?m]) w1 = (res, w2)"
    by (cases "save cfg c (arr[i := ?m]) w1")
  from assms(1) have r: "r = ?m" and ok: "res = Inr ()" and w': "w' = audit c ?m ''update'' w2"
    by (auto simp: update_def g i s Let_def split: sum.splits)
  from save_ok_stores[OF s[unfolded ok]] show ?thesis
    by (auto simp: i r w')
qed

text \<open>
  Claim C9. An \<^verbatim>\<open>update\<close> that finds a matching record and succeeds returns the
  shallow merge of the patch over the first matching record: a field the patch names has
  the patch's value, whole (a nested object is replaced, not merged), every other field
  has the record's value, and no other field exists. The stored array is the fetched one
  with that one record replaced, every other record as it was.
\<close>

theorem update_shallow_merge:
  assumes "update cfg c key updates w = (Inr (Some r), w')"
      and "fst (get cfg c w) = Inr arr" and "json_array arr" and "is_object updates"
  shows "\<exists>i<length arr. matches_key key (arr ! i) \<and> (\<forall>j<i. \<not> matches_key key (arr ! j)) \<and>
           (\<forall>k. get_field r k =
                  (if has_field updates k then get_field updates k else get_field (arr ! i) k)) \<and>
           (\<forall>k. has_field r k = (has_field updates k \<or> has_field (arr ! i) k)) \<and>
           blobs w' (path_of cfg c) = Some (arr[i := jsonify_record r])"
proof -
  from update_found[OF assms(1,2)] obtain i where
    i: "findIndex (matches_key key) arr = Some i"
    and r: "r = assign (assign [] (arr ! i)) updates"
    and b: "blobs w' (path_of cfg c) = Some (map jsonify_record (arr[i := r]))"
    by blast
  from findIndex_Some_props[OF i] have
    p: "i < length arr" "matches_key key (arr ! i)" "\<forall>j<i. \<not> matches_key key (arr ! j)"
    by simp_all
  have o: "is_object (arr ! i)"
    using assms(3) p(1) by (simp add: json_array_def list_all_length)
  have m: "map jsonify_record arr = arr"
    using assms(3) by (auto simp: json_array_def list_all_iff jsonify_record_json intro!: map_idI)
  have g: "\<forall>k. get_field r k =
             (if has_field updates k then get_field updates k else get_field (arr ! i) k)"
    by (simp add: r get_field_assign[OF assms(4)] assign_Nil_object[OF o])
  have h: "\<forall>k. has_field r k = (has_field updates k \<or> has_field (arr ! i) k)"
    by (auto simp add: r has_field_assign)
  have s: "blobs w' (path_of cfg c) = Some (arr[i := jsonify_record r])"
    using b by (simp add: map_update m)
  show ?thesis
    using p g h s by blast
qed

theorem update_shallow_merge_witness:
  "fst (update example_cfg ''users'' ''1'' address_patch profiles_world) =
     Inr (Some ada_moved) \<and>
   (\<exists>i<length [ada_profile, user2].
      matches_key ''1'' ([ada_profile, user2] ! i) \<and>
      (\<forall>j<i. \<not> matches_key ''1'' ([ada_profile, user2] ! j)) \<and>
      (\<forall>k. get_field ada_moved k =
             (if has_field address_patch k then get_field address_patch k
              else get_field ([ada_profile, user2] ! i) k)) \<and>
      (\<forall>k. has_field ada_moved k =
             (has_field address_patch k \<or> has_field ([ada_profile, user2] ! i) k)) \<and>
      blobs (snd (update example_cfg ''users'' ''1'' address_patch profiles_world))
        (path_of example_cfg ''users'') =
        Some ([ada_profile, user2][i := jsonify_record ada_moved]))"
proof -
  have f: "fst (update example_cfg ''users'' ''1'' address_patch profiles_world) =
             Inr (Some ada_moved)"
    by code_simp
  then have u: "update example_cfg ''users'' ''1'' address_patch profiles_world =
      (Inr (Some ada_moved),
       snd (update example_cfg ''users'' ''1'' address_patch profiles_world))"
    by (simp add: prod_eq_iff)
  have g: "fst (get example_cfg ''users'' profiles_world) = Inr [ada_profile, user2]"
    by code_simp
  have j: "json_array [ada_profile, user2]"
    by code_simp
  have o: "is_object address_patch"
    by code_simp
  show ?thesis
    using f update_shallow_merge[OF u g j o] by blast
qed

subsection \<open>What \<^verbatim>\<open>insert\<close> and \<^verbatim>\<open>bulkInsert\<close> return\<close>





lemma bulkInsert_loop_result:
  "bulkInsert_loop cfg c items arr res n w = (Inr (arr', res'), w') \<Longrightarrow>
   arr' = arr @ allocated cfg c items n (rng w) \<and>
   res' = res @ allocated cfg c items n (rng w) \<and>
   list_all (\<lambda>it. validateSchema cfg c (apply_defaults cfg c it) = Inr ()) items \<and>
   w' = w\<lparr>rng := rng w + length items\<rparr>"
proof (induction items arbitrary: arr res n w)
  case Nil
  then show ?case by simp
next
  case (Cons a items)
  let ?it = "apply_defaults cfg c a"
  from Cons.prems have v: "validateSchema cfg c ?it = Inr ()"
    by (cases "validateSchema cfg c ?it") (auto simp: Let_def)
  let ?n = "new_item (uuid_of (rng w)) n ?it"
  from Cons.prems have
    "bulkInsert_loop cfg c items (arr @ [?n]) (res @ [?n]) (plus1 n) (w\<lparr>rng := rng w + 1\<rparr>) =
       (Inr (arr', res'), w')"
    by (simp add: v randomUUID_def Let_def)
  from Cons.IH[OF this] show ?case
    by (simp add: v)
qed

lemma length_allocated [simp]: "length (allocated cfg c items n r0) = length items"
  by (induction items arbitrary: n r0) auto

lemma nth_allocated:
  "j < length items \<Longrightarrow>
   allocated cfg c items n r0 ! j =
     new_item (uuid_of (r0 + j)) ((plus1 ^^ j) n) (apply_defaults cfg c (items ! j))"
proof (induction items arbitrary: n r0 j)
  case Nil
  then show ?case by simp
next
  case (Cons a items)
  show ?case
  proof (cases j)
    case 0
    then show ?thesis by simp
  next
    case (Suc j')
    with Cons.prems have "j' < length items" by simp
    from Cons.IH[OF this, of "plus1 n" "r0 + 1"] show ?thesis
      by (simp add: Suc funpow_swap1)
  qed
qed

lemma bulkInsert_found:
  assumes "bulkInsert cfg c items w = (Inr rs, w')"
      and "fst (get cfg c w) = Inr arr"
  shows "list_all (\<lambda>it. validateSchema cfg c (apply_defaults cfg c it) = Inr ()) items \<and>
         rs = allocated cfg c items (plus1 (max_id arr)) (rng (snd (get cfg c w))) \<and>
         blobs w' (path_of cfg c) = Some (map jsonify_record (arr @ rs)) \<and>
         requests w' =
           requests (snd (get cfg c w)) @
             [GET (path_of cfg c),
              PUT (path_of cfg c) (map jsonify_record (arr @ rs))
                (case fst (request_GET (path_of cfg c)
                        ((snd (get cfg c w))\<lparr>rng := rng (snd (get cfg c w)) + length items\<rparr>)) of
                   Inl e \<Rightarrow> None | Inr (c, s) \<Rightarrow> Some s)]"
proof -
  obtain w1 where g: "get cfg c w = (Inr arr, w1)"
    using assms(2) by (cases "get cfg c w") auto
  obtain lr w2 where l: "bulkInsert_loop cfg c items arr [] (plus1 (max_id arr)) w1 = (lr, w2)"
    by (cases "bulkInsert_loop cfg c items arr [] (plus1 (max_id arr)) w1")
  from assms(1) obtain arr' res' where lr: "lr = Inr (arr', res')"
    by (cases lr) (auto simp: bulkInsert_def g l)
  from bulkInsert_loop_result[OF l[unfolded lr]] have
    a: "arr' = arr @ allocated cfg c items (plus1 (max_id arr)) (rng w1)"
    and r: "res' = allocated cfg c items (plus1 (max_id arr)) (rng w1)"
    and v: "list_all (\<lambda>it. validateSchema cfg c (apply_defaults cfg c it) = Inr ()) items"
    and w2: "w2 = w1\<lparr>rng := rng w1 + length items\<rparr>"
    by simp_all
  obtain sr w3 where s: "save cfg c arr' w2 = (sr, w3)"
    by (cases "save cfg c arr' w2")
  from assms(1) have rs: "rs = res'" and ok: "sr = Inr ()" and w': "w' = w3"
    by (auto simp: bulkInsert_def g l lr s split: sum.splits)
  have rq: "requests w3 = requests (snd (save cfg c arr' w2))" by (simp add: s)
  from save_ok_stores[OF s[unfolded ok]] show ?thesis
    by (simp add: g v rs r w' a rq save_extends w2)
qed


lemma get_field_new_item:
  "is_object it \<Longrightarrow>
   get_field (new_item u n it) k =
     (if has_field it k then get_field it k
      else get_field [(''uid'', JStr u), (''id'', JStr (Number_toString n))] k)"
  by (simp add: new_item_def get_field_assign)

lemma is_object_apply_defaults: "is_object it \<Longrightarrow> is_object (apply_defaults cfg c it)"
  by (auto simp: apply_defaults_def is_object_assign is_object_def[of "[]"]
           split: option.splits)




subsection \<open>Operations that reach their write\<close>



lemma bulkInsert_succeeds:
  assumes "get cfg c w = (Inr arr, w1)"
      and "list_all (\<lambda>it. validateSchema cfg c (apply_defaults cfg c it) = Inr ()) items"
      and "write_refusal (path_of cfg c) w1 = None"
  shows "\<exists>rs w'. bulkInsert cfg c items w = (Inr rs, w')"
proof -
  have "guarded_write (path_of cfg c) w1 (bulkInsert cfg c items w)"
    by (rule bulkInsert_guarded[OF assms(1,2)])
  then have "\<not> isl (fst (bulkInsert cfg c items w))"
    using assms(3) by (auto simp: guarded_write_def split: req.splits)
  then obtain x where "fst (bulkInsert cfg c items w) = Inr x"
    by (cases "fst (bulkInsert cfg c items w)") auto
  then have "bulkInsert cfg c items w = (Inr x, snd (bulkInsert cfg c items w))"
    by (simp add: prod_eq_iff)
  then show ?thesis
    by blast
qed





subsection \<open>Decimal strings and numbers\<close>




lemma digits_of_small: "n < 10 \<Longrightarrow> digits_of n = [digit_char n]"
  by (subst digits_of.simps) simp

lemma digits_of_large:
  "\<not> n < 10 \<Longrightarrow> digits_of n = digits_of (n div 10) @ [digit_char (n mod 10)]"
  by (subst digits_of.simps) simp









lemma unsigned_digits:
  assumes "all_digits ds"
  shows "StrUnsignedDecimalLiteral ds = Dec (int (digits_val ds)) 0"
proof -
  from assms obtain ch cs where s: "ds = ch # cs" and h: "is_digit ch"
    by (cases ds) (auto simp: all_digits_def)
  have i: "ds \<noteq> ''Infinity''"
    using h by (auto simp: s is_digit_def)
  have t: "takeWhile is_digit ds = ds"
    using assms by (simp add: all_digits_def list_all_iff takeWhile_eq_all_conv)
  have d: "dropWhile is_digit ds = []"
    using assms by (simp add: all_digits_def list_all_iff)
  show ?thesis
    using assms
    by (simp add: StrUnsignedDecimalLiteral_def i t d ExponentPart_def all_digits_def)
qed

lemma digit_not_radix:
  "is_digit ch \<Longrightarrow> ch \<notin> set ''xX'' \<and> ch \<notin> set ''oO'' \<and> ch \<notin> set ''bB''"
  by (auto simp: is_digit_def)

lemma no_radix_digits: "all_digits t \<Longrightarrow> NonDecimalIntegerLiteral t = None"
proof (cases t)
  case Nil
  then show ?thesis by (simp add: NonDecimalIntegerLiteral_def)
next
  case (Cons c0 r)
  assume a: "all_digits t"
  show ?thesis
  proof (cases r)
    case Nil
    then show ?thesis by (simp add: NonDecimalIntegerLiteral_def Cons)
  next
    case (Cons c1 ds)
    have "is_digit c1"
      using a by (simp add: all_digits_def \<open>t = c0 # r\<close> Cons)
    from digit_not_radix[OF this] show ?thesis
      by (simp add: NonDecimalIntegerLiteral_def \<open>t = c0 # r\<close> Cons del: set_simps)
  qed
qed

lemma no_radix_signed:
  "t = c # ds \<Longrightarrow> c = CHR ''+'' \<or> c = CHR ''-'' \<Longrightarrow> NonDecimalIntegerLiteral t = None"
  by (auto simp: NonDecimalIntegerLiteral_def split: list.splits)

lemma StringToNumber_signed:
  assumes "SignedInteger (trim s) = Some n"
  shows "StringToNumber s = Dec n 0"
proof -
  from assms obtain c ds where t: "trim s = c # ds"
    by (cases "trim s") (auto simp: SignedInteger_def)
  show ?thesis
  proof (cases "c = CHR ''+''")
    case True
    with assms have "all_digits ds" and "n = int (digits_val ds)"
      by (auto simp: SignedInteger_def t split: if_splits)
    then show ?thesis
      using no_radix_signed[OF t] True
      by (simp add: StringToNumber_def t unsigned_digits)
  next
    case False
    note plus = False
    show ?thesis
    proof (cases "c = CHR ''-''")
      case True
      with assms have "all_digits ds" and "n = - int (digits_val ds)"
        by (auto simp: SignedInteger_def t split: if_splits)
      then show ?thesis
        using no_radix_signed[OF t] True
        by (simp add: StringToNumber_def t unsigned_digits negate_def)
    next
      case False
      with assms plus have a: "all_digits (c # ds)" and "n = int (digits_val (c # ds))"
        by (auto simp: SignedInteger_def t split: if_splits)
      then show ?thesis
        using no_radix_digits[OF a] plus False
        by (simp add: StringToNumber_def t unsigned_digits)
    qed
  qed
qed

lemma plain_id_number: "plain_id v \<Longrightarrow> or0 (toNumber v) = Dec (id_as_integer v) 0"
proof (cases v)
  case (JStr s)
  assume p: "plain_id v"
  show ?thesis
  proof (cases "SignedInteger (trim s)")
    case None
    with p have "trim s = [] \<or> StringToNumber s = NaN"
      by (simp add: JStr plain_id_def)
    then have "or0 (StringToNumber s) = Dec 0 0"
      by (auto simp: StringToNumber_def or0_def)
    then show ?thesis
      by (simp add: JStr toNumber_def toPrimitive_def id_as_integer_def None)
  next
    case (Some n)
    from StringToNumber_signed[OF this] show ?thesis
      by (simp add: JStr toNumber_def toPrimitive_def id_as_integer_def Some or0_def)
  qed
qed (simp_all add: plain_id_def toNumber_def toPrimitive_def or0_def id_as_integer_def)


lemma Math_max_int: "Math_max (Dec a 0) (Dec k 0) = Dec (max a k) 0"
  by (simp add: Math_max_def num_lt_def dec_lt_def max_def)

lemma foldl_Math_max:
  "foldl Math_max (Dec a 0) (map (\<lambda>k. Dec k 0) ks) = Dec (foldl max a ks) 0"
  by (induction ks arbitrary: a) (simp_all add: Math_max_int)

lemma foldl_max_Max: "foldl max (a::int) xs = Max (set (a # xs))"
proof (induction xs arbitrary: a)
  case Nil
  then show ?case by simp
next
  case (Cons x xs)
  have "Max (set (max a x # xs)) = Max (set (a # x # xs))"
    by (cases "xs = []") (auto simp: max.assoc max.commute max.left_commute)
  with Cons.IH[of "max a x"] show ?case by simp
qed

lemma plus1_int: "plus1 (Dec m 0) = Dec (m + 1) 0"
  by (simp add: plus1_def)

lemma funpow_plus1: "(plus1 ^^ j) (Dec m 0) = Dec (m + int j) 0"
  by (induction j) (simp_all add: plus1_int)

lemma max_id_spec:
  assumes "plain_ids arr"
  shows "plus1 (max_id arr) = Dec (int (spec_first_id arr)) 0"
proof -
  let ?ks = "map (\<lambda>x. id_as_integer (get_field x ''id'')) arr"
  have e: "map id_number arr = map (\<lambda>k. Dec k 0) ?ks"
    using assms by (auto simp: plain_ids_def list_all_iff id_number_def plain_id_number)
  have "max_id arr = foldl Math_max (Dec 0 0) (map (\<lambda>k. Dec k 0) ?ks)"
    unfolding max_id_def by (simp only: e)
  also have "\<dots> = Dec (foldl max 0 ?ks) 0"
    by (rule foldl_Math_max)
  also have "foldl max 0 ?ks = Max (set (0 # ?ks))"
    by (rule foldl_max_Max)
  finally have m: "max_id arr = Dec (Max (set (0 # ?ks))) 0" .
  have "(0::int) \<le> Max (set (0 # ?ks))"
    by (rule Max_ge) simp_all
  then show ?thesis
    by (simp add: m plus1_int spec_first_id_def del: Max_insert set_simps)
qed


text \<open>An integer of at most 21 digits is printed as its decimal digits.\<close>

lemma strip_zeros_props:
  "0 < m \<Longrightarrow> strip_zeros m e = (s, e') \<Longrightarrow>
   0 < s \<and> e \<le> e' \<and> m = s * 10 ^ nat (e' - e)"
proof (induction m e rule: strip_zeros.induct)
  case (1 m e)
  show ?case
  proof (cases "m mod 10 = 0")
    case True
    with 1(2) have d: "0 < m div 10" and m: "m = m div 10 * 10"
      by auto
    from 1(3) True 1(2) have "strip_zeros (m div 10) (e + 1) = (s, e')"
      by (subst (asm) strip_zeros.simps) simp
    from 1(1)[OF _ d this] True 1(2) have
      i: "0 < s" "e + 1 \<le> e'" "m div 10 = s * 10 ^ nat (e' - (e + 1))"
      by simp_all
    have "nat (e' - e) = Suc (nat (e' - (e + 1)))"
      using i(2) by simp
    then have "s * 10 ^ nat (e' - e) = m div 10 * 10"
      using i(3) by simp
    with m i show ?thesis by simp
  next
    case False
    with 1(3) have "s = m" "e' = e"
      by (subst (asm) strip_zeros.simps, simp)+
    with 1(2) show ?thesis by simp
  qed
qed

lemma digits_of_shift: "0 < s \<Longrightarrow> digits_of (s * 10 ^ z) = digits_of s @ replicate z (CHR ''0'')"
proof (induction z)
  case 0
  then show ?case by simp
next
  case (Suc z)
  have "\<not> s * 10 ^ Suc z < 10"
    using Suc.prems by (simp add: not_less)
  then have "digits_of (s * 10 ^ Suc z) =
      digits_of (s * 10 ^ Suc z div 10) @ [digit_char (s * 10 ^ Suc z mod 10)]"
    by (rule digits_of_large)
  also have "s * 10 ^ Suc z div 10 = s * 10 ^ z"
    by simp
  also have "s * 10 ^ Suc z mod 10 = 0"
    by simp
  finally show ?case
    using Suc.IH[OF Suc.prems] by (simp add: digit_char_def replicate_append_same)
qed

lemma length_digits_of: "0 < d \<Longrightarrow> n < 10 ^ d \<Longrightarrow> length (digits_of n) \<le> d"
proof (induction n arbitrary: d rule: digits_of.induct)
  case (1 n)
  show ?case
  proof (cases "n < 10")
    case True
    then show ?thesis using 1(2) by (simp add: digits_of_small)
  next
    case False
    obtain d' where d: "d = Suc d'"
      using 1(2) by (cases d) auto
    have "0 < d'"
      using False 1(3) d by (cases d') auto
    moreover have "n div 10 < 10 ^ d'"
      using 1(3) d by (simp add: less_mult_imp_div_less mult.commute)
    ultimately have "length (digits_of (n div 10)) \<le> d'"
      using 1(1)[OF False] by blast
    then show ?thesis
      using False by (simp add: digits_of_large d)
  qed
qed

lemma magnitude_int:
  assumes "0 < n" and "n < 10 ^ 21"
  shows "magnitude_toString n 0 = digits_of n"
proof -
  obtain s e' where z: "strip_zeros n 0 = (s, e')"
    by (cases "strip_zeros n 0")
  from strip_zeros_props[OF assms(1) z] have
    p: "0 < s" "0 \<le> e'" "n = s * 10 ^ nat e'"
    by simp_all
  have d: "digits_of n = digits_of s @ replicate (nat e') (CHR ''0'')"
    using digits_of_shift[OF p(1), of "nat e'"] p(3) by simp
  have "length (digits_of n) \<le> 21"
    by (rule length_digits_of[OF _ assms(2)]) simp
  then have l: "int (length (digits_of s)) + e' \<le> 21"
    using p(2) by (simp add: d)
  show ?thesis
    using p(2) l by (simp add: magnitude_toString_def z Let_def d)
qed

lemma Number_toString_nat:
  "0 < n \<Longrightarrow> n < 10 ^ 21 \<Longrightarrow> Number_toString (Dec (int n) 0) = digits_of n"
  by (simp add: Number_toString_def magnitude_int)

lemma first_id_toString:
  assumes "0 < n" and "n \<le> 9007199254740992"
  shows "Number_toString (Dec (int n) 0) = digits_of n"
proof -
  have "n < 10 ^ 21"
    using assms(2) by simp
  from Number_toString_nat[OF assms(1) this] show ?thesis .
qed

subsection \<open>The identifiers \<^verbatim>\<open>insert\<close> assigns\<close>

lemma get_field_assign_absent:
  assumes "\<not> has_field s k"
  shows "get_field (assign t s) k = get_field t k"
proof -
  from assms have "map_of s k = None" by (simp add: has_field_def)
  then have "map_of (rev s) k = None" by (simp add: dom_map_of_rev)
  then show ?thesis by (simp add: get_field_def map_of_assign map_add_def)
qed

lemma new_item_minted:
  "(\<not> has_field it ''id'' \<longrightarrow> get_field (new_item u n it) ''id'' = JStr (Number_toString n)) \<and>
   (\<not> has_field it ''uid'' \<longrightarrow> get_field (new_item u n it) ''uid'' = JStr u)"
proof (intro conjI impI)
  let ?t = "[(''uid'', JStr u), (''id'', JStr (Number_toString n))]"
  have i: "get_field ?t ''id'' = JStr (Number_toString n)" by (simp add: get_field_def)
  have v: "get_field ?t ''uid'' = JStr u" by (simp add: get_field_def)
  {
    assume "\<not> has_field it ''id''"
    from get_field_assign_absent[OF this, of ?t] i
    show "get_field (new_item u n it) ''id'' = JStr (Number_toString n)"
      by (simp add: new_item_def)
  }
  {
    assume "\<not> has_field it ''uid''"
    from get_field_assign_absent[OF this, of ?t] v
    show "get_field (new_item u n it) ''uid'' = JStr u"
      by (simp add: new_item_def)
  }
qed




lemma json_array_fixed: "json_array arr \<Longrightarrow> map jsonify_record arr = arr"
  by (auto simp: json_array_def list_all_iff jsonify_record_json intro!: map_idI)





subsection \<open>The identifiers \<^verbatim>\<open>bulkInsert\<close> assigns\<close>

lemma writes_append: "writes (xs @ ys) = writes xs + writes ys"
  by (simp add: writes_def)

text \<open>
  Claim C5, as stated: the identifiers of a batch are a contiguous, strictly increasing
  run that starts one above the largest existing \<open>id\<close>, and the batch costs exactly one
  write. It fails on a collection never written, for a batch whose first item brings its
  own \<open>id\<close>: the returned identifiers are \<open>7\<close> and \<open>2\<close> where the run starts at \<open>1\<close>,
  and the trace holds two writes, the lazy initialisation and the batch. It also fails
  where an existing \<open>id\<close> is \<open>Infinity\<close>: infinity is its own successor, and both
  records of the batch get the \<open>id\<close> \<open>Infinity\<close>.
\<close>

theorem bulkInsert_run_counterexample:
  "fst (bulkInsert example_cfg ''users''
          [[(''id'', JStr ''7''), (''name'', JStr ''Cy'')], [(''name'', JStr ''Di'')]]
          empty_world) =
     Inr [[(''uid'', JStr ''uuid-0''), (''id'', JStr ''7''), (''name'', JStr ''Cy'')],
          [(''uid'', JStr ''uuid-1''), (''id'', JStr ''2''), (''name'', JStr ''Di'')]] \<and>
   spec_first_id [] = 1 \<and>
   writes (requests (snd (bulkInsert example_cfg ''users''
          [[(''id'', JStr ''7''), (''name'', JStr ''Cy'')], [(''name'', JStr ''Di'')]]
          empty_world))) = 2 \<and>
   fst (bulkInsert example_cfg ''users''
          [[(''name'', JStr ''Cy'')], [(''name'', JStr ''Di'')]] infinity_world) =
     Inr [[(''uid'', JStr ''uuid-0''), (''id'', JStr ''Infinity''), (''name'', JStr ''Cy'')],
          [(''uid'', JStr ''uuid-1''), (''id'', JStr ''Infinity''), (''name'', JStr ''Di'')]]"
  by code_simp

text \<open>
  Claim C5, amended. Let the fetch of a \<^verbatim>\<open>bulkInsert\<close> of \<open>N\<close> items return the
  collection, every item (after the defaults are merged in) pass validation and the
  write not be refused, and let the fetched collection hold JSON objects whose \<open>id\<close>s
  are absent, \<^verbatim>\<open>null\<close>, JSON integers, or strings that are integer numerals (decimal
  digits with an optional sign, white space around them), blank, or no numeric literal
  at all, with the integers and the run below \<open>2^53\<close>. Then the \<^verbatim>\<open>bulkInsert\<close>
  returns \<open>N\<close> records in the order of the items: the \<open>j\<close>-th record has every field
  of the \<open>j\<close>-th item, and, if that item names no \<open>id\<close>, the \<open>id\<close> that is \<open>j\<close>
  above the specification's first identifier, so the items without an \<open>id\<close> of their
  own number on from one above the largest existing \<open>id\<close>, all from the one fetched
  snapshot. The stored collection is the fetched one with the batch appended. After the
  fetch exactly one write is sent, for the whole batch; on a collection whose blob
  exists and whose fetch is served it is the only write of the operation.
\<close>

theorem bulkInsert_allocates_run:
  assumes "get cfg c w = (Inr arr, w1)" and "write_refusal (path_of cfg c) w1 = None"
      and "list_all (\<lambda>it. validateSchema cfg c (apply_defaults cfg c it) = Inr ()) items"
      and "json_array arr" and "plain_ids arr"
      and "spec_first_id arr + length items \<le> 9007199254740992"
  shows
   "\<exists>rs w'. bulkInsert cfg c items w = (Inr rs, w') \<and>
      length rs = length items \<and>
      (\<forall>j<length items.
          (\<not> has_field (apply_defaults cfg c (items ! j)) ''id'' \<longrightarrow>
             get_field (rs ! j) ''id'' =
               JStr (digits_of (spec_first_id arr + j))) \<and>
          (\<forall>k. is_object (items ! j) \<and> has_field (apply_defaults cfg c (items ! j)) k \<longrightarrow>
             get_field (rs ! j) k = get_field (apply_defaults cfg c (items ! j)) k)) \<and>
      blobs w' (path_of cfg c) = Some (arr @ map jsonify_record rs) \<and>
      writes (requests w') = writes (requests w1) + 1 \<and>
      (quiet 1 w \<and> blobs w (path_of cfg c) \<noteq> None \<longrightarrow>
         writes (requests w') = writes (requests w) + 1)"
proof -
  let ?arr = arr
  let ?w1 = "snd (get cfg c w)"
  let ?p = "path_of cfg c"
  from bulkInsert_succeeds[OF assms(1,3,2)] obtain rs w' where
    bi: "bulkInsert cfg c items w = (Inr rs, w')"
    by blast
  have f: "fst (get cfg c w) = Inr ?arr"
    by (simp add: assms(1))
  have w1: "?w1 = w1"
    by (simp add: assms(1))
  from bulkInsert_found[OF bi f] obtain e where
    r: "rs = allocated cfg c items (plus1 (max_id ?arr)) (rng ?w1)"
    and b: "blobs w' ?p = Some (map jsonify_record (?arr @ rs))"
    and q: "requests w' = requests ?w1 @ [GET ?p, PUT ?p (map jsonify_record (?arr @ rs)) e]"
    by blast
  have n: "plus1 (max_id ?arr) = Dec (int (spec_first_id ?arr)) 0"
    by (rule max_id_spec[OF assms(5)])
  have l: "length rs = length items" by (simp add: r)
  have ids: "\<forall>j<length items.
        (\<not> has_field (apply_defaults cfg c (items ! j)) ''id'' \<longrightarrow>
           get_field (rs ! j) ''id'' = JStr (digits_of (spec_first_id ?arr + j))) \<and>
        (\<forall>k. is_object (items ! j) \<and> has_field (apply_defaults cfg c (items ! j)) k \<longrightarrow>
           get_field (rs ! j) k = get_field (apply_defaults cfg c (items ! j)) k)"
  proof (intro allI impI conjI)
    fix j
    assume j: "j < length items"
    let ?it = "apply_defaults cfg c (items ! j)"
    let ?n = "Dec (int (spec_first_id ?arr + j)) 0"
    have "(plus1 ^^ j) (plus1 (max_id ?arr)) = ?n"
      by (simp only: n funpow_plus1 of_nat_add)
    then have e: "rs ! j = new_item (uuid_of (rng ?w1 + j)) ?n ?it"
      using nth_allocated[OF j, of cfg c "plus1 (max_id ?arr)" "rng ?w1"] by (simp only: r)
    have p: "0 < spec_first_id ?arr + j"
      by (simp add: spec_first_id_def)
    have u: "spec_first_id ?arr + j \<le> 9007199254740992"
      using assms(6) j by simp
    have t: "Number_toString ?n = digits_of (spec_first_id ?arr + j)"
      by (rule first_id_toString[OF p u])
    {
      assume "\<not> has_field ?it ''id''"
      with new_item_minted[of ?it "uuid_of (rng ?w1 + j)" ?n]
      have "get_field (new_item (uuid_of (rng ?w1 + j)) ?n ?it) ''id'' =
              JStr (Number_toString ?n)"
        by blast
      then show "get_field (rs ! j) ''id'' = JStr (digits_of (spec_first_id ?arr + j))"
        by (simp only: e t)
    }
    {
      fix k
      assume "is_object (items ! j) \<and> has_field ?it k"
      then show "get_field (rs ! j) k = get_field ?it k"
        by (simp only: e) (simp add: get_field_new_item is_object_apply_defaults)
    }
  qed
  have s: "blobs w' ?p = Some (?arr @ map jsonify_record rs)"
    using b by (simp add: json_array_fixed[OF assms(4)])
  have wr: "writes (requests w') = writes (requests ?w1) + 1"
    by (simp add: q writes_append) (simp add: writes_def)
  have ex: "quiet 1 w \<and> blobs w ?p \<noteq> None \<longrightarrow>
             writes (requests w') = writes (requests w) + 1"
  proof
    assume "quiet 1 w \<and> blobs w ?p \<noteq> None"
    then have "requests ?w1 = requests w @ [GET ?p]"
      using get_store_effect[of w cfg c] by blast
    then show "writes (requests w') = writes (requests w) + 1"
      by (simp add: wr writes_append) (simp add: writes_def)
  qed
  show ?thesis
    using bi l ids s wr[unfolded w1] ex by blast
qed

text \<open>
  The witness: a batch of two into the collection that holds Ada under \<open>id\<close> \<open>1\<close>, and
  the same batch into the collection with the \<open>id\<close>s \<open>7\<close>, \<open>user-7\<close>, \<^verbatim>\<open>null\<close> and
  \<open>12\<close>.
\<close>

theorem bulkInsert_allocates_run_witness:
  "(\<exists>rs w'. bulkInsert example_cfg ''users''
        [[(''name'', JStr ''Cy'')], [(''name'', JStr ''Di'')]] users_world = (Inr rs, w') \<and>
      length rs = length [[(''name'', JStr ''Cy'')], [(''name'', JStr ''Di'')]] \<and>
      get_field (rs ! 0) ''id'' =
        JStr (digits_of (spec_first_id [user1] + 0)) \<and>
      get_field (rs ! 1) ''id'' =
        JStr (digits_of (spec_first_id [user1] + 1)) \<and>
      blobs w' (path_of example_cfg ''users'') =
        Some ([user1] @ map jsonify_record rs) \<and>
      writes (requests w') = writes (requests users_world) + 1) \<and>
   (\<exists>rs w'. bulkInsert example_cfg ''users''
        [[(''name'', JStr ''Cy'')], [(''name'', JStr ''Di'')]] mixed_ids_world = (Inr rs, w') \<and>
      get_field (rs ! 0) ''id'' =
        JStr (digits_of (spec_first_id mixed_ids + 0)) \<and>
      get_field (rs ! 1) ''id'' =
        JStr (digits_of (spec_first_id mixed_ids + 1))) \<and>
   fst (bulkInsert example_cfg ''users''
        [[(''name'', JStr ''Cy'')], [(''name'', JStr ''Di'')]] users_world) =
     Inr [[(''uid'', JStr ''uuid-0''), (''id'', JStr ''2''), (''name'', JStr ''Cy'')],
          [(''uid'', JStr ''uuid-1''), (''id'', JStr ''3''), (''name'', JStr ''Di'')]] \<and>
   spec_first_id [user1] = 2 \<and>
   blobs (snd (bulkInsert example_cfg ''users''
        [[(''name'', JStr ''Cy'')], [(''name'', JStr ''Di'')]] users_world))
     (path_of example_cfg ''users'') =
     Some [user1,
           [(''uid'', JStr ''uuid-0''), (''id'', JStr ''2''), (''name'', JStr ''Cy'')],
           [(''uid'', JStr ''uuid-1''), (''id'', JStr ''3''), (''name'', JStr ''Di'')]] \<and>
   requests (snd (bulkInsert example_cfg ''users''
        [[(''name'', JStr ''Cy'')], [(''name'', JStr ''Di'')]] users_world)) =
     [GET ''db/users.json'', GET ''db/users.json'',
      PUT ''db/users.json''
        [user1,
         [(''uid'', JStr ''uuid-0''), (''id'', JStr ''2''), (''name'', JStr ''Cy'')],
         [(''uid'', JStr ''uuid-1''), (''id'', JStr ''3''), (''name'', JStr ''Di'')]]
        (Some (sha_of [user1]))] \<and>
   fst (bulkInsert example_cfg ''users''
        [[(''name'', JStr ''Cy'')], [(''name'', JStr ''Di'')]] mixed_ids_world) =
     Inr [[(''uid'', JStr ''uuid-0''), (''id'', JStr ''13''), (''name'', JStr ''Cy'')],
          [(''uid'', JStr ''uuid-1''), (''id'', JStr ''14''), (''name'', JStr ''Di'')]]"
proof -
  let ?items = "[[(''name'', JStr ''Cy'')], [(''name'', JStr ''Di'')]]"
  have "fst (get example_cfg ''users'' users_world) = Inr [user1]"
    by code_simp
  then have g1: "get example_cfg ''users'' users_world =
      (Inr [user1], snd (get example_cfg ''users'' users_world))"
    by (simp add: prod_eq_iff)
  have "fst (get example_cfg ''users'' mixed_ids_world) = Inr mixed_ids"
    by code_simp
  then have g2: "get example_cfg ''users'' mixed_ids_world =
      (Inr mixed_ids, snd (get example_cfg ''users'' mixed_ids_world))"
    by (simp add: prod_eq_iff)
  have q: "write_refusal (path_of example_cfg ''users'')
             (snd (get example_cfg ''users'' users_world)) = None"
          "write_refusal (path_of example_cfg ''users'')
             (snd (get example_cfg ''users'' mixed_ids_world)) = None"
    by code_simp+
  have vs: "list_all (\<lambda>it. validateSchema example_cfg ''users''
                              (apply_defaults example_cfg ''users'' it) = Inr ()) ?items"
    by code_simp
  have j: "json_array [user1]"
          "json_array mixed_ids"
    by code_simp+
  have p: "plain_ids [user1]"
          "plain_ids mixed_ids"
    by code_simp+
  have f1: "spec_first_id [user1] = 2"
    by code_simp
  have f2: "spec_first_id mixed_ids = 13"
    by code_simp
  have r1: "spec_first_id [user1] + length ?items
              \<le> 9007199254740992"
    by (simp add: f1)
  have r2: "spec_first_id mixed_ids + length ?items
              \<le> 9007199254740992"
    by (simp add: f2)
  have l: "(0::nat) < length ?items \<and> (1::nat) < length ?items"
    by simp
  have n: "\<not> has_field (apply_defaults example_cfg ''users'' (?items ! 0)) ''id'' \<and>
           \<not> has_field (apply_defaults example_cfg ''users'' (?items ! 1)) ''id''"
    by code_simp
  have e: "quiet 1 users_world \<and> blobs users_world (path_of example_cfg ''users'') \<noteq> None"
    by code_simp
  have p1: "fst (bulkInsert example_cfg ''users'' ?items users_world) =
              Inr [[(''uid'', JStr ''uuid-0''), (''id'', JStr ''2''), (''name'', JStr ''Cy'')],
                   [(''uid'', JStr ''uuid-1''), (''id'', JStr ''3''), (''name'', JStr ''Di'')]] \<and>
            blobs (snd (bulkInsert example_cfg ''users'' ?items users_world))
              (path_of example_cfg ''users'') =
              Some [user1,
                [(''uid'', JStr ''uuid-0''), (''id'', JStr ''2''), (''name'', JStr ''Cy'')],
                [(''uid'', JStr ''uuid-1''), (''id'', JStr ''3''), (''name'', JStr ''Di'')]] \<and>
            requests (snd (bulkInsert example_cfg ''users'' ?items users_world)) =
              [GET ''db/users.json'', GET ''db/users.json'',
               PUT ''db/users.json''
                 [user1,
                  [(''uid'', JStr ''uuid-0''), (''id'', JStr ''2''), (''name'', JStr ''Cy'')],
                  [(''uid'', JStr ''uuid-1''), (''id'', JStr ''3''), (''name'', JStr ''Di'')]]
                 (Some (sha_of [user1]))]"
    by code_simp
  have p2: "fst (bulkInsert example_cfg ''users'' ?items mixed_ids_world) =
              Inr [[(''uid'', JStr ''uuid-0''), (''id'', JStr ''13''), (''name'', JStr ''Cy'')],
                   [(''uid'', JStr ''uuid-1''), (''id'', JStr ''14''), (''name'', JStr ''Di'')]]"
    by code_simp
  show ?thesis
    using l n e f1 p1 p2
      bulkInsert_allocates_run[OF g1 q(1) vs j(1) p(1) r1]
      bulkInsert_allocates_run[OF g2 q(2) vs j(2) p(2) r2]
    by blast
qed


end
